theory Spec2Isabelle
  imports Main
begin

section \<open>Byte strings and the string helpers of the Go standard library\<close>

text \<open>
  A Go \<^verbatim>\<open>string\<close> is a sequence of bytes; it is modelled as \<^typ>\<open>string\<close> (a list of
  8-bit characters). The helpers below are the functions of package \<^verbatim>\<open>strings\<close>,
  \<^verbatim>\<open>unicode/utf8\<close>, \<^verbatim>\<open>unicode\<close>, \<^verbatim>\<open>strconv\<close> and \<^verbatim>\<open>net\<close> that the proxy calls,
  translated from the Go sources; \<^verbatim>\<open>Split\<close> and \<^verbatim>\<open>SplitN\<close> are given at the only separators
  the proxy uses them with (one ASCII byte each). Byte values and runes are integers.
\<close>

definition LF :: char where
  "LF = CHR 0x0A"

definition CR :: char where
  "CR = CHR 0x0D"

definition CRLF :: string where
  "CRLF = [CR, LF]"

definition byte :: "char \<Rightarrow> int" where
  "byte c = of_char c"

subsection \<open>UTF-8\<close>

definition RuneError :: int where
  "RuneError = 0xFFFD"

text \<open>
  \<^verbatim>\<open>utf8.DecodeRuneInString\<close>: the first rune and its width in bytes. A byte that starts no
  valid encoding (a continuation byte, an overlong or truncated form, a surrogate, a value
  past U+10FFFF) decodes to \<^verbatim>\<open>RuneError\<close> of width 1.
\<close>

definition DecodeRune :: "string \<Rightarrow> int \<times> nat" where
  "DecodeRune s =
     (case s of
        [] \<Rightarrow> (RuneError, 0)
      | c0 # cs \<Rightarrow>
          (let b0 = byte c0 in
           if b0 < 0x80 then (b0, 1)
           else if b0 < 0xC2 \<or> 0xF4 < b0 then (RuneError, 1)
           else
             (let sz = (if b0 < 0xE0 then 2 else if b0 < 0xF0 then 3 else (4::nat));
                  lo = (if b0 = 0xE0 then 0xA0 else if b0 = 0xF0 then 0x90 else 0x80);
                  hi = (if b0 = 0xED then 0x9F else if b0 = 0xF4 then 0x8F else 0xBF)
              in if length s < sz then (RuneError, 1)
                 else
                   (let b1 = byte (s ! 1) in
                    if b1 < lo \<or> hi < b1 then (RuneError, 1)
                    else if sz = 2 then ((b0 mod 32) * 64 + b1 mod 64, 2)
                    else
                      (let b2 = byte (s ! 2) in
                       if b2 < 0x80 \<or> 0xBF < b2 then (RuneError, 1)
                       else if sz = 3
                       then ((b0 mod 16) * 4096 + (b1 mod 64) * 64 + b2 mod 64, 3)
                       else
                         (let b3 = byte (s ! 3) in
                          if b3 < 0x80 \<or> 0xBF < b3 then (RuneError, 1)
                          else ((b0 mod 8) * 262144 + (b1 mod 64) * 4096
                                + (b2 mod 64) * 64 + b3 mod 64, 4)))))))"

text \<open>\<^verbatim>\<open>utf8.RuneStart\<close>: the byte is not a continuation byte.\<close>

definition RuneStart :: "char \<Rightarrow> bool" where
  "RuneStart c = (byte c < 0x80 \<or> 0xBF < byte c)"

text \<open>
  \<^verbatim>\<open>utf8.DecodeLastRuneInString\<close>: the last rune and its width. The start of the rune is
  looked for among the up to three bytes before the last one; when the bytes from there do
  not decode to a rune that ends at the end of the string, the result is \<^verbatim>\<open>RuneError\<close>
  of width 1.
\<close>

definition DecodeLastRune :: "string \<Rightarrow> int \<times> nat" where
  "DecodeLastRune s =
     (let e = length s in
      if e = 0 then (RuneError, 0)
      else if byte (s ! (e - 1)) < 0x80 then (byte (s ! (e - 1)), 1)
      else
        (let start = (if 2 \<le> e \<and> RuneStart (s ! (e - 2)) then e - 2
                      else if 3 \<le> e \<and> RuneStart (s ! (e - 3)) then e - 3
                      else if 4 \<le> e \<and> RuneStart (s ! (e - 4)) then e - 4
                      else e - 5)
         in case DecodeRune (drop start s) of
              (r, n) \<Rightarrow> if start + n \<noteq> e then (RuneError, 1) else (r, n)))"

lemma DecodeRune_size: "s \<noteq> [] \<Longrightarrow> 0 < snd (DecodeRune s)"
  by (cases s) (simp_all add: DecodeRune_def Let_def)

lemma DecodeLastRune_size_aux:
  "start < e \<Longrightarrow>
   0 < snd (case p of (r, n) \<Rightarrow> if start + n \<noteq> e then (RuneError, 1::nat) else (r, n))"
  by (cases p) auto

lemma DecodeLastRune_size: "s \<noteq> [] \<Longrightarrow> 0 < snd (DecodeLastRune s)"
  by (simp add: DecodeLastRune_def Let_def DecodeLastRune_size_aux)

lemma DecodeLastRune_Nil: "DecodeLastRune [] = (RuneError, 0)"
  by (simp add: DecodeLastRune_def)

lemma DecodeRune_shorter:
  "(r, n) = DecodeRune s \<Longrightarrow> s \<noteq> [] \<Longrightarrow> length s - n < length s"
  using DecodeRune_size [of s] by (cases "DecodeRune s") auto

subsection \<open>White space\<close>

text \<open>\<^verbatim>\<open>unicode.IsSpace\<close>: the runes of the Unicode property \<^verbatim>\<open>White_Space\<close>.\<close>

definition IsSpace :: "int \<Rightarrow> bool" where
  "IsSpace r =
     ((0x09 \<le> r \<and> r \<le> 0x0D) \<or> r = 0x20 \<or> r = 0x85 \<or> r = 0xA0 \<or> r = 0x1680
      \<or> (0x2000 \<le> r \<and> r \<le> 0x200A) \<or> r = 0x2028 \<or> r = 0x2029 \<or> r = 0x202F
      \<or> r = 0x205F \<or> r = 0x3000)"

text \<open>The table \<^verbatim>\<open>asciiSpace\<close> of package \<^verbatim>\<open>strings\<close>.\<close>

definition asciiSpace :: "char \<Rightarrow> bool" where
  "asciiSpace c = (c = CHR 0x09 \<or> c = CHR 0x0A \<or> c = CHR 0x0B \<or> c = CHR 0x0C
                   \<or> c = CHR 0x0D \<or> c = CHR 0x20)"

text \<open>\<^verbatim>\<open>strings.TrimLeftFunc(s, unicode.IsSpace)\<close>: from the first rune that is no space.\<close>

function TrimLeft :: "string \<Rightarrow> string" where
  "TrimLeft s =
     (if s = [] then []
      else (case DecodeRune s of (r, n) \<Rightarrow> if IsSpace r then TrimLeft (drop n s) else s))"
  by pat_completeness auto
termination
  by (relation "measure length") (auto intro: DecodeRune_shorter)

declare TrimLeft.simps [simp del]

lemma DecodeLastRune_shorter:
  assumes "(r, n) = DecodeLastRune (take i s)" and "IsSpace r" and "0 < i"
  shows "i - n < i"
proof -
  have "take i s \<noteq> []"
  proof
    assume "take i s = []"
    with assms(1) have "r = RuneError" by (simp add: DecodeLastRune_Nil)
    with assms(2) show False by (simp add: IsSpace_def RuneError_def)
  qed
  then have "0 < n" using DecodeLastRune_size [of "take i s"] assms(1) by (metis snd_conv)
  with assms(3) show ?thesis by simp
qed

text \<open>
  \<^verbatim>\<open>lastIndexFunc(s, unicode.IsSpace, false)\<close> on the first \<open>i\<close> bytes: the index of the last
  rune that is no space, if there is one.
\<close>

function last_non_space :: "string \<Rightarrow> nat \<Rightarrow> nat option" where
  "last_non_space s i =
     (if i = 0 then None
      else (case DecodeLastRune (take i s) of
              (r, n) \<Rightarrow> if IsSpace r then last_non_space s (i - n) else Some (i - n)))"
  by pat_completeness auto
termination
  by (relation "measure snd") (auto intro: DecodeLastRune_shorter)

declare last_non_space.simps [simp del]

text \<open>
  \<^verbatim>\<open>strings.TrimRightFunc(s, unicode.IsSpace)\<close>: up to and including the last rune that is
  no space; its width is found by decoding forwards at its index.
\<close>

definition TrimRight :: "string \<Rightarrow> string" where
  "TrimRight s =
     (case last_non_space s (length s) of
        None \<Rightarrow> []
      | Some i \<Rightarrow> if 0x80 \<le> byte (s ! i) then take (i + snd (DecodeRune (drop i s))) s
                  else take (Suc i) s)"

text \<open>
  \<^verbatim>\<open>strings.TrimSpace\<close>: leading and trailing ASCII space is cut bytewise; at the first byte
  from either end that is not ASCII the function falls back to
  \<^verbatim>\<open>TrimFunc(s, unicode.IsSpace)\<close> on what is left.
\<close>

definition TrimSpace :: "string \<Rightarrow> string" where
  "TrimSpace s =
     (let s1 = dropWhile asciiSpace s in
      if s1 \<noteq> [] \<and> 0x80 \<le> byte (hd s1) then TrimRight (TrimLeft s1)
      else
        (let s2 = rev (dropWhile asciiSpace (rev s1)) in
         if s2 \<noteq> [] \<and> 0x80 \<le> byte (last s2) then TrimRight s2 else s2))"

text \<open>
  \<^verbatim>\<open>strings.Split(s, sep)\<close> for a one-byte separator. The result always has at least one
  piece, so the empty case of the inner split does not occur.
\<close>

fun Split :: "string \<Rightarrow> char \<Rightarrow> string list" where
  "Split [] sep = [[]]"
| "Split (c # cs) sep =
     (if c = sep then [] # Split cs sep
      else (case Split cs sep of [] \<Rightarrow> [[c]] | p # ps \<Rightarrow> (c # p) # ps))"

text \<open>\<^verbatim>\<open>strings.SplitN(s, sep, 2)\<close>: cut at the first separator only.\<close>

definition SplitN2 :: "string \<Rightarrow> char \<Rightarrow> string list" where
  "SplitN2 s sep =
     (if sep \<in> set s then [takeWhile (\<lambda>c. c \<noteq> sep) s, tl (dropWhile (\<lambda>c. c \<noteq> sep) s)]
      else [s])"

definition Contains :: "string \<Rightarrow> char \<Rightarrow> bool" where
  "Contains s sep = (sep \<in> set s)"

fun Join :: "string list \<Rightarrow> string \<Rightarrow> string" where
  "Join [] sep = []"
| "Join [p] sep = p"
| "Join (p # q # ps) sep = p @ sep @ Join (q # ps) sep"

section \<open>Buffered readers\<close>

text \<open>
  A \<^verbatim>\<open>bufio.Reader\<close> over a connection: the bytes that will still arrive, and the error
  the connection reports once they are used up (\<^verbatim>\<open>io.EOF\<close>, or another error such as an
  expired deadline). \<^verbatim>\<open>ReadString('\n')\<close> returns a line that ends in the delimiter, or
  the bytes left and the error when no delimiter is left.
\<close>

datatype read_error = EOF | UnexpectedEOF | ReadFailed

record reader =
  unread :: string
  final_err :: read_error

definition has_line :: "string \<Rightarrow> bool" where
  "has_line s = (LF \<in> set s)"

definition first_line :: "string \<Rightarrow> string" where
  "first_line s = takeWhile (\<lambda>c. c \<noteq> LF) s @ [LF]"

definition after_line :: "string \<Rightarrow> string" where
  "after_line s = tl (dropWhile (\<lambda>c. c \<noteq> LF) s)"

definition ReadString :: "reader \<Rightarrow> string \<times> read_error option \<times> reader" where
  "ReadString r =
     (if has_line (unread r)
      then (first_line (unread r), None, r\<lparr>unread := after_line (unread r)\<rparr>)
      else (unread r, Some (final_err r), r\<lparr>unread := []\<rparr>))"

text \<open>A line read without error leaves strictly fewer bytes unread: the loops below end.\<close>

lemma ReadString_shorter:
  assumes "ReadString r = (line, None, r')"
  shows "length (unread r') < length (unread r)"
proof -
  from assms have hl: "has_line (unread r)" and r': "unread r' = after_line (unread r)"
    by (auto simp: ReadString_def split: if_splits)
  have le: "length (dropWhile (\<lambda>c. c \<noteq> LF) (unread r)) \<le> length (unread r)"
    by (rule length_dropWhile_le)
  from hl have pos: "0 < length (unread r)"
    by (auto simp: has_line_def)
  from le pos have "length (dropWhile (\<lambda>c. c \<noteq> LF) (unread r)) - 1 < length (unread r)"
    by arith
  then show ?thesis
    by (simp add: after_line_def r')
qed

lemma after_line_shorter: "has_line s \<Longrightarrow> length (after_line s) < length s"
  using ReadString_shorter [of "\<lparr>unread = s, final_err = EOF\<rparr>" "first_line s"
      "\<lparr>unread = after_line s, final_err = EOF\<rparr>"]
  by (simp add: ReadString_def)

text \<open>
  \<^verbatim>\<open>io.ReadFull(reader, buf)\<close> with \<^verbatim>\<open>len(buf) = n\<close>: exactly \<open>n\<close> bytes, or an error. When the
  stream ends after some but not all of the bytes, the error is \<^verbatim>\<open>io.ErrUnexpectedEOF\<close>; when
  it ends before the first byte, it is \<^verbatim>\<open>io.EOF\<close>; any other error is passed on.
  \<^verbatim>\<open>reader.Peek(n)\<close>: the next \<open>n\<close> bytes without consuming them, or an error.
\<close>

definition ReadFull :: "reader \<Rightarrow> nat \<Rightarrow> read_error + (string \<times> reader)" where
  "ReadFull r n =
     (if n \<le> length (unread r)
      then Inr (take n (unread r), r\<lparr>unread := drop n (unread r)\<rparr>)
      else if final_err r = EOF \<and> unread r \<noteq> [] then Inl UnexpectedEOF
      else Inl (final_err r))"

definition Peek :: "reader \<Rightarrow> nat \<Rightarrow> read_error + string" where
  "Peek r n = (if n \<le> length (unread r) then Inr (take n (unread r)) else Inl (final_err r))"

section \<open>The request parser (proxy/http.go)\<close>

record HTTPRequest =
  Method :: string
  Path :: string
  Protocol :: string
  Port :: string
  Host :: string
  UserAgent :: string
  ProxyConnection :: string
  Raw :: string

datatype parse_error =
    ReadErr read_error
  | MalformedRequestLine
  | MalformedStatusLine
  | BodyReadErr read_error

definition new_request :: HTTPRequest where
  "new_request = \<lparr>Method = [], Path = [], Protocol = [], Port = ''80'', Host = [],
                   UserAgent = [], ProxyConnection = [], Raw = []\<rparr>"

text \<open>The body of the header loop after the end-of-headers test: one header line.\<close>

definition request_header :: "string \<Rightarrow> HTTPRequest \<Rightarrow> HTTPRequest" where
  "request_header line req =
     (let parts = SplitN2 line (CHR '':'') in
      if length parts \<noteq> 2 then req
      else
        let key = TrimSpace (parts ! 0); v = TrimSpace (parts ! 1) in
        if key = ''Host'' then
          (let hostParts = Split v (CHR '':'') in
           if length hostParts > 1
           then req\<lparr>Host := hostParts ! 0, Port := hostParts ! 1\<rparr>
           else req\<lparr>Host := hostParts ! 0\<rparr>)
        else if key = ''User-Agent'' then req\<lparr>UserAgent := v\<rparr>
        else if key = ''Proxy-Connection'' then req\<lparr>ProxyConnection := v\<rparr>
        else req)"

text \<open>
  The header loop of \<^verbatim>\<open>parseRequest\<close>. \<open>raw\<close> is the \<^verbatim>\<open>strings.Builder\<close>. A line read
  without error is appended to it; on \<^verbatim>\<open>io.EOF\<close> the loop is left before the append.
\<close>

function request_headers ::
  "reader \<Rightarrow> HTTPRequest \<Rightarrow> string \<Rightarrow> parse_error + (HTTPRequest \<times> reader)" where
  "request_headers r req raw =
     (case ReadString r of
        (line, Some e, r') \<Rightarrow>
          (if e = EOF then Inr (req\<lparr>Raw := raw\<rparr>, r') else Inl (ReadErr e))
      | (line, None, r') \<Rightarrow>
          (if line = CRLF then Inr (req\<lparr>Raw := raw @ line\<rparr>, r')
           else request_headers r' (request_header line req) (raw @ line)))"
  by pat_completeness auto
termination
  by (relation "measure (\<lambda>(r, req, raw). length (unread r))")
     (auto dest: ReadString_shorter [OF sym])

declare request_headers.simps [simp del]

definition parseRequest :: "reader \<Rightarrow> parse_error + (HTTPRequest \<times> reader)" where
  "parseRequest r =
     (case ReadString r of
        (firstLine, Some e, r') \<Rightarrow> Inl (ReadErr e)
      | (firstLine, None, r') \<Rightarrow>
          (let parts = Split (TrimSpace firstLine) (CHR '' '') in
           if length parts < 3 then Inl MalformedRequestLine
           else request_headers r'
                  (new_request\<lparr>Method := parts ! 0, Path := parts ! 1, Protocol := parts ! 2\<rparr>)
                  firstLine))"

section \<open>The response parser (proxy/proxy.go)\<close>

text \<open>
  \<^verbatim>\<open>strconv.Atoi\<close> on a 64-bit platform, as the value it returns; both call sites drop
  the error. \<^verbatim>\<open>ParseUint\<close> reads the digits from the left: the first byte that is no digit
  is a syntax error, and the first digit that takes the number past \<^verbatim>\<open>1<<64 - 1\<close> is a range
  error, whatever follows it. A syntax error gives 0; a number out of range gives the
  nearest bound of \<^verbatim>\<open>int\<close>.
\<close>

definition is_digit :: "char \<Rightarrow> bool" where
  "is_digit c = (48 \<le> (of_char c :: nat) \<and> (of_char c :: nat) \<le> 57)"

datatype uint_result = SyntaxError | RangeError | Uint int

fun ParseUint :: "int \<Rightarrow> string \<Rightarrow> uint_result" where
  "ParseUint n [] = Uint n"
| "ParseUint n (c # cs) =
     (if \<not> is_digit c then SyntaxError
      else if 18446744073709551615 < 10 * n + (byte c - 48) then RangeError
      else ParseUint (10 * n + (byte c - 48)) cs)"

definition Atoi :: "string \<Rightarrow> int" where
  "Atoi s =
     (let neg = (s \<noteq> [] \<and> hd s = CHR ''-'');
          ds = (if s \<noteq> [] \<and> (hd s = CHR ''-'' \<or> hd s = CHR ''+'') then tl s else s)
      in if ds = [] then 0
         else (case ParseUint 0 ds of
                 SyntaxError \<Rightarrow> 0
               | RangeError \<Rightarrow> (if neg then - 9223372036854775808 else 9223372036854775807)
               | Uint un \<Rightarrow>
                   (if \<not> neg \<and> 9223372036854775808 \<le> un then 9223372036854775807
                    else if neg \<and> 9223372036854775808 < un then - 9223372036854775808
                    else if neg then - un else un)))"

record HTTPResponse =
  Proto :: string
  StatusCode :: int
  Status :: string
  Headers :: "string \<rightharpoonup> string"
  Body :: string
  RawResponse :: string

definition new_response :: HTTPResponse where
  "new_response = \<lparr>Proto = [], StatusCode = 0, Status = [], Headers = Map.empty,
                    Body = [], RawResponse = []\<rparr>"

text \<open>One header line of a response: \<^verbatim>\<open>resp.Headers[TrimSpace(k)] = TrimSpace(v)\<close>.\<close>

definition response_header :: "string \<Rightarrow> (string \<rightharpoonup> string) \<Rightarrow> (string \<rightharpoonup> string)" where
  "response_header line hs =
     (let parts = SplitN2 line (CHR '':'') in
      if length parts = 2 then hs(TrimSpace (parts ! 0) \<mapsto> TrimSpace (parts ! 1)) else hs)"

function response_headers ::
  "reader \<Rightarrow> (string \<rightharpoonup> string) \<Rightarrow> string
     \<Rightarrow> parse_error + ((string \<rightharpoonup> string) \<times> string \<times> reader)" where
  "response_headers r hs buf =
     (case ReadString r of
        (line, Some e, r') \<Rightarrow> (if e = EOF then Inr (hs, buf, r') else Inl (ReadErr e))
      | (line, None, r') \<Rightarrow>
          (if line = CRLF then Inr (hs, buf @ line, r')
           else response_headers r' (response_header line hs) (buf @ line)))"
  by pat_completeness auto
termination
  by (relation "measure (\<lambda>(r, hs, buf). length (unread r))")
     (auto dest: ReadString_shorter [OF sym])

declare response_headers.simps [simp del]

text \<open>
  The body is read only when the map has the key \<^verbatim>\<open>Content-Length\<close>, spelled so, and its
  value is a positive number. A length that the runtime cannot allocate makes
  \<^verbatim>\<open>make\<close> panic before the read; no response is returned then either, and the model
  gives the failed read for it.
\<close>

definition parseResponse :: "reader \<Rightarrow> parse_error + (HTTPResponse \<times> reader)" where
  "parseResponse r =
     (case ReadString r of
        (statusLine, Some e, r') \<Rightarrow> Inl (ReadErr e)
      | (statusLine, None, r') \<Rightarrow>
          (let parts = Split (TrimSpace statusLine) (CHR '' '') in
           if length parts < 2 then Inl MalformedStatusLine
           else
             let resp = new_response\<lparr>Proto := parts ! 0, StatusCode := Atoi (parts ! 1),
                          Status := (if length parts > 2 then Join (drop 2 parts) '' '' else [])\<rparr>
             in case response_headers r' Map.empty statusLine of
                  Inl e \<Rightarrow> Inl e
                | Inr (hs, buf, r2) \<Rightarrow>
                    (case hs ''Content-Length'' of
                       None \<Rightarrow> Inr (resp\<lparr>Headers := hs, RawResponse := buf\<rparr>, r2)
                     | Some cl \<Rightarrow>
                         (if Atoi cl > 0 then
                            (case ReadFull r2 (nat (Atoi cl)) of
                               Inl e \<Rightarrow> Inl (BodyReadErr e)
                             | Inr (body, r3) \<Rightarrow>
                                 Inr (resp\<lparr>Headers := hs, Body := body,
                                           RawResponse := buf @ body\<rparr>, r3))
                          else Inr (resp\<lparr>Headers := hs, RawResponse := buf\<rparr>, r2)))))"

section \<open>The blocklist (proxy/proxy.go)\<close>

text \<open>
  \<^verbatim>\<open>strings.EqualFold\<close>. While both strings have ASCII bytes they are compared bytewise, a
  capital letter being equal to its small letter. From the first position where one of them
  has a byte outside ASCII, they are compared rune by rune (an invalid byte being the rune
  \<^verbatim>\<open>RuneError\<close>); two different runes of which the larger is outside ASCII are equal when the
  loop over \<^verbatim>\<open>unicode.SimpleFold\<close> from the smaller reaches the larger. The tables of
  \<^verbatim>\<open>unicode.SimpleFold\<close> are not copied here: \<open>folds lo hi\<close> stands for that answer, and every
  statement below holds for every \<open>folds\<close>.
\<close>

definition ascii_fold :: "int \<Rightarrow> int \<Rightarrow> bool" where
  "ascii_fold sr tr =
     (let lo = min sr tr; hi = max sr tr in 0x41 \<le> lo \<and> lo \<le> 0x5A \<and> hi = lo + 0x20)"

definition rune_fold :: "(int \<Rightarrow> int \<Rightarrow> bool) \<Rightarrow> int \<Rightarrow> int \<Rightarrow> bool" where
  "rune_fold folds sr tr =
     (if tr = sr then True
      else if max sr tr < 0x80 then ascii_fold sr tr
      else folds (min sr tr) (max sr tr))"

function EqualFoldRunes :: "(int \<Rightarrow> int \<Rightarrow> bool) \<Rightarrow> string \<Rightarrow> string \<Rightarrow> bool" where
  "EqualFoldRunes folds s t =
     (if s = [] then t = []
      else if t = [] then False
      else (case DecodeRune s of
              (sr, n) \<Rightarrow>
                (case DecodeRune t of
                   (tr, m) \<Rightarrow>
                     if rune_fold folds sr tr then EqualFoldRunes folds (drop n s) (drop m t)
                     else False)))"
  by pat_completeness auto
termination
  by (relation "measure (\<lambda>(folds, s, t). length s)") (auto intro: DecodeRune_shorter)

declare EqualFoldRunes.simps [simp del]

fun EqualFold :: "(int \<Rightarrow> int \<Rightarrow> bool) \<Rightarrow> string \<Rightarrow> string \<Rightarrow> bool" where
  "EqualFold folds (a # s) (b # t) =
     (if 0x80 \<le> byte a \<or> 0x80 \<le> byte b then EqualFoldRunes folds (a # s) (b # t)
      else if a = b then EqualFold folds s t
      else if ascii_fold (byte a) (byte b) then EqualFold folds s t
      else False)"
| "EqualFold folds s t = (length s = length t)"

text \<open>
  The file \<^verbatim>\<open>blocked\<close> as \<^verbatim>\<open>checkHost\<close> sees it: it cannot be opened, or it has these lines
  (the bytes between its line feeds), and reading it fails after them or not. The
  \<^verbatim>\<open>bufio.Scanner\<close> has the default buffer of \<^verbatim>\<open>MaxScanTokenSize\<close> = 65536 bytes: on a line of
  that many bytes or more it stops with \<^verbatim>\<open>ErrTooLong\<close>. It drops one carriage return from
  the end of a line.
\<close>

datatype blocked_file = Unreadable | File "string list" bool

datatype check_error = OpenFailed | ScanFailed

definition too_long :: "string \<Rightarrow> bool" where
  "too_long l = (65536 \<le> int (length l))"

definition dropCR :: "string \<Rightarrow> string" where
  "dropCR l = (if l \<noteq> [] \<and> last l = CR then butlast l else l)"

text \<open>
  The scanner loop and the check of \<^verbatim>\<open>scanner.Err()\<close> after it. \<^verbatim>\<open>checkHost\<close> answers
  \<^verbatim>\<open>false\<close> for a blocked host and \<^verbatim>\<open>true\<close> for an allowed one.
\<close>

fun scan_blocked ::
  "(int \<Rightarrow> int \<Rightarrow> bool) \<Rightarrow> string \<Rightarrow> string list \<Rightarrow> bool \<Rightarrow> check_error + bool" where
  "scan_blocked folds host [] err = (if err then Inl ScanFailed else Inr True)"
| "scan_blocked folds host (l # ls) err =
     (if too_long l then Inl ScanFailed
      else
        (let blockedHost = TrimSpace (dropCR l) in
         if blockedHost = [] then scan_blocked folds host ls err
         else if EqualFold folds host blockedHost then Inr False
         else scan_blocked folds host ls err))"

definition checkHost ::
  "(int \<Rightarrow> int \<Rightarrow> bool) \<Rightarrow> string \<Rightarrow> blocked_file \<Rightarrow> check_error + bool" where
  "checkHost folds host f =
     (case f of
        Unreadable \<Rightarrow> Inl OpenFailed
      | File ls err \<Rightarrow> scan_blocked folds host ls err)"

section \<open>The 403 page (proxy/https.go)\<close>

function itoa :: "nat \<Rightarrow> string" where
  "itoa n = (if n < 10 then [char_of (48 + n)] else itoa (n div 10) @ [char_of (48 + n mod 10)])"
  by pat_completeness auto
termination
  by (relation "measure id") auto

declare itoa.simps [simp del]

definition forbiddenHTMLTemplate :: "string \<Rightarrow> string" where
  "forbiddenHTMLTemplate domain =
     ''<!DOCTYPE html>'' @ [LF] @
     ''<html>'' @ [LF] @
     ''<head>'' @ [LF] @
     ''    <title>Access Denied</title>'' @ [LF] @
     ''    <style>'' @ [LF] @
     ''        body { font-family: Arial, sans-serif; text-align: center; padding: 50px; }'' @ [LF] @
     ''        h1 { color: #d9534f; }'' @ [LF] @
     ''    </style>'' @ [LF] @
     ''</head>'' @ [LF] @
     ''<body>'' @ [LF] @
     ''    <h1>403 Forbidden</h1>'' @ [LF] @
     ''    <p>Access to '' @ domain @ '' has been restricted by the administrator.</p>'' @ [LF] @
     ''</body>'' @ [LF] @
     ''</html>''"

definition forbidden_response :: "string \<Rightarrow> string" where
  "forbidden_response domain =
     ''HTTP/1.1 403 Forbidden'' @ CRLF @
     ''Content-Type: text/html; charset=utf-8'' @ CRLF @
     ''Content-Length: '' @ itoa (length (forbiddenHTMLTemplate domain)) @ CRLF @
     ''Connection: close'' @ CRLF @
     CRLF @ forbiddenHTMLTemplate domain"

section \<open>The CONNECT request (proxy/https.go)\<close>

datatype connect_error = ConnectReadErr read_error | MalformedConnect

text \<open>The text before the first \<^verbatim>\<open>"\r\n"\<close>: \<^verbatim>\<open>strings.Split(s, "\r\n")[0]\<close>.\<close>

fun before_crlf :: "string \<Rightarrow> string" where
  "before_crlf (a # b # cs) = (if a = CR \<and> b = LF then [] else a # before_crlf (b # cs))"
| "before_crlf cs = cs"

text \<open>The read loop of \<^verbatim>\<open>readConnectRequest\<close>: any read error ends it, \<^verbatim>\<open>io.EOF\<close> too.\<close>

function connect_lines :: "reader \<Rightarrow> string \<Rightarrow> read_error + (string \<times> reader)" where
  "connect_lines r request =
     (case ReadString r of
        (line, Some e, r') \<Rightarrow> Inl e
      | (line, None, r') \<Rightarrow>
          (if line = CRLF then Inr (request @ line, r')
           else connect_lines r' (request @ line)))"
  by pat_completeness auto
termination
  by (relation "measure (\<lambda>(r, request). length (unread r))")
     (auto dest: ReadString_shorter [OF sym])

declare connect_lines.simps [simp del]

definition readConnectRequest :: "reader \<Rightarrow> connect_error + string" where
  "readConnectRequest r =
     (case connect_lines r [] of
        Inl e \<Rightarrow> Inl (ConnectReadErr e)
      | Inr (request, r') \<Rightarrow>
          (let firstLine = before_crlf request;
               parts = Split (TrimSpace firstLine) (CHR '' '')
           in if length parts < 3 then Inl MalformedConnect else Inr (parts ! 1)))"

definition processConnectRequest :: "reader \<Rightarrow> connect_error + (string \<times> string)" where
  "processConnectRequest r =
     (case readConnectRequest r of
        Inl e \<Rightarrow> Inl e
      | Inr t \<Rightarrow>
          (let target = (if \<not> Contains t (CHR '':'') then t @ '':443'' else t);
               domain = Split target (CHR '':'') ! 0
           in Inr (target, domain)))"

section \<open>The leaf certificate (proxy/https.go, generateCertificate)\<close>

text \<open>
  The fields of \<^verbatim>\<open>x509.Certificate\<close> that the template sets, and \<^verbatim>\<open>tls.Certificate\<close>. Times
  are nanoseconds since the epoch; keys and DER encodings are opaque.
\<close>

datatype key_usage = KeyUsageDigitalSignature | KeyUsageContentCommitment
  | KeyUsageKeyEncipherment | KeyUsageDataEncipherment | KeyUsageKeyAgreement
  | KeyUsageCertSign | KeyUsageCRLSign | KeyUsageEncipherOnly | KeyUsageDecipherOnly

datatype ext_key_usage = ExtKeyUsageAny | ExtKeyUsageServerAuth | ExtKeyUsageClientAuth
  | ExtKeyUsageCodeSigning | ExtKeyUsageEmailProtection

record x509_certificate =
  SerialNumber :: int
  CommonName :: string
  DNSNames :: "string list"
  NotBefore :: int
  NotAfter :: int
  KeyUsage :: "key_usage set"
  ExtKeyUsage :: "ext_key_usage list"
  BasicConstraintsValid :: bool
  IsCA :: bool
  SubjectKeyId :: "int list"

record tls_certificate =
  Certificate :: "string list"
  PrivateKey :: nat
  Leaf :: "x509_certificate option"

text \<open>
  What \<^verbatim>\<open>generateCertificate\<close> takes from outside: the key that \<^verbatim>\<open>rsa.GenerateKey\<close> returns
  (none when it fails) and its public half, the clock (\<open>clock i\<close> is what the \<open>i\<close>-th call of
  \<^verbatim>\<open>time.Now()\<close> in one call of the function returns: there are three), the format
  \<^verbatim>\<open>time.RFC3339Nano\<close>, SHA-256, and \<^verbatim>\<open>x509.CreateCertificate\<close> as a function of template,
  parent, public key and signing key (none when it fails). The parent is the field
  \<^verbatim>\<open>Leaf\<close> of the root CA, which \<^verbatim>\<open>tls.LoadX509KeyPair\<close> may leave unset.
\<close>

record minting =
  rsa_GenerateKey :: "nat option"
  rsa_PublicKey :: "nat \<Rightarrow> nat"
  clock :: "nat \<Rightarrow> int"
  RFC3339Nano :: "int \<Rightarrow> string"
  sha256 :: "string \<Rightarrow> string"
  x509_CreateCertificate ::
    "x509_certificate \<Rightarrow> x509_certificate option \<Rightarrow> nat \<Rightarrow> nat \<Rightarrow> string option"

definition Minute :: int where
  "Minute = 60 * 1000000000"

definition Hour :: int where
  "Hour = 60 * Minute"

text \<open>\<^verbatim>\<open>new(big.Int).SetBytes(b)\<close>: the bytes as a big-endian unsigned number.\<close>

definition SetBytes :: "string \<Rightarrow> int" where
  "SetBytes b = foldl (\<lambda>n c. 256 * n + byte c) 0 b"

definition leaf_template :: "minting \<Rightarrow> string \<Rightarrow> x509_certificate" where
  "leaf_template m domain =
     (let cleanDomain = Split domain (CHR '':'') ! 0;
          serial = SetBytes (sha256 m (domain @ RFC3339Nano m (clock m 0)))
      in \<lparr>SerialNumber = serial,
          CommonName = cleanDomain,
          DNSNames = [cleanDomain, ''*.'' @ cleanDomain],
          NotBefore = clock m 1 + (- 5) * Minute,
          NotAfter = clock m 2 + 2 * Hour,
          KeyUsage = {KeyUsageDigitalSignature, KeyUsageKeyEncipherment},
          ExtKeyUsage = [ExtKeyUsageServerAuth],
          BasicConstraintsValid = True,
          IsCA = False,
          SubjectKeyId = [1, 2, 3, 4]\<rparr>)"

datatype mint_error = GenerateKeyFailed | CreateCertificateFailed

definition generateCertificate ::
  "minting \<Rightarrow> string \<Rightarrow> tls_certificate \<Rightarrow> mint_error + tls_certificate" where
  "generateCertificate m domain rootCA =
     (case rsa_GenerateKey m of
        None \<Rightarrow> Inl GenerateKeyFailed
      | Some privateKey \<Rightarrow>
          (case x509_CreateCertificate m (leaf_template m domain) (Leaf rootCA)
                  (rsa_PublicKey m privateKey) (PrivateKey rootCA) of
             None \<Rightarrow> Inl CreateCertificateFailed
           | Some signedCert \<Rightarrow>
               Inr \<lparr>Certificate = [signedCert], PrivateKey = privateKey, Leaf = None\<rparr>))"

section \<open>Connections, events and the world of one connection\<close>

text \<open>
  What a handler does to the outside is recorded as a list of events, in program order.
  \<open>Write c bs\<close> is the call \<^verbatim>\<open>c.Write(bs)\<close>, \<open>Close c\<close> the call \<^verbatim>\<open>c.Close()\<close>, which ends
  both directions of the connection, \<open>CloseWrite c\<close> the call \<^verbatim>\<open>c.CloseWrite()\<close>, which ends
  the write side only,
  \<open>Dial t\<close> the call \<^verbatim>\<open>net.Dial("tcp", t)\<close> and \<open>DialTLS t\<close> the call \<^verbatim>\<open>tls.Dial("tcp", t, ...)\<close>;
  whether a call succeeds is decided by the world. \<open>ClientTLS\<close> is the \<^verbatim>\<open>tls.Server\<close>
  wrapper of the client socket: closing it closes the client socket. Log calls are
  left out.
\<close>

datatype conn = Client | ClientTLS | Origin

datatype event =
    SetDeadline conn nat
  | CheckBlocklist string
  | Write conn string
  | Dial string
  | DialTLS string
  | LoadRootCA
  | GenerateCertificate string
  | Handshake
  | CloseWrite conn
  | Close conn

text \<open>
  The two goroutines of the tunnel run in some order. \<open>StepC2S k\<close> and \<open>StepS2C k\<close> are one
  step of the client-to-origin and of the origin-to-client goroutine, in which a read from
  the connection returns at most \<open>k + 1\<close> of the bytes under way; \<open>ResetClient\<close> and
  \<open>ResetOrigin\<close> are the peer ending its connection.
\<close>

datatype action = StepC2S nat | StepS2C nat | ResetClient | ResetOrigin

text \<open>
  The world of one accepted connection: what the client sends in clear, the blocklist
  file, the answer of \<^verbatim>\<open>unicode.SimpleFold\<close>, whether writes to the client and to the origin
  succeed, the origin's answer to a dial (none when the dial fails, otherwise the bytes it
  will send), the root CA that \<^verbatim>\<open>tls.LoadX509KeyPair\<close> returns (none when it fails), what the
  minting of the leaf takes from outside, the outcome of the TLS handshake with the client,
  the bytes the client sends inside TLS, and the order in which the two goroutines of the
  tunnel run.
\<close>

record world =
  client_in :: reader
  blocked :: blocked_file
  simple_fold :: "int \<Rightarrow> int \<Rightarrow> bool"
  client_write_ok :: bool
  origin :: "reader option"
  origin_write_ok :: bool
  root_ca :: "tls_certificate option"
  mint :: minting
  handshake_ok :: bool
  tls_client_in :: string
  schedule :: "action list"

section \<open>The tunnel (proxy/https.go, tunnelConnections)\<close>

text \<open>
  Two goroutines run interleaved. The first is \<^verbatim>\<open>io.Copy(server, client)\<close> followed by
  the deferred \<^verbatim>\<open>server.Close()\<close>; the second is \<^verbatim>\<open>forwardServerResponse\<close> followed by
  the deferred \<^verbatim>\<open>client.Close()\<close>. The bytes a peer sends are all under way from the start
  (\<open>c_in\<close>, \<open>s_in\<close>), so a read from a connection never waits: it returns some of them, or it
  fails because the stream is used up, because the proxy has closed the connection or
  because the peer has reset it (\<open>c_dead\<close>, \<open>s_dead\<close>). A write fails on a dead connection.

  \<^verbatim>\<open>io.Copy\<close> reads into a buffer of 32768 bytes and writes what it has read. The second
  goroutine reads the origin through a \<^verbatim>\<open>bufio.Reader\<close>, which reads ahead: \<open>s_buf\<close> holds the
  bytes taken from the connection and not yet handed out, and they stay readable when the
  connection is dead. \<^verbatim>\<open>ReadString\<close> takes a line from \<open>s_buf\<close> when one is complete there
  and otherwise fills from the connection, at most 4096 bytes at a time; the copy of the
  body hands out what is buffered before it reads from the connection again.
\<close>

definition read_size :: "nat \<Rightarrow> int \<Rightarrow> nat" where
  "read_size k lim = nat (min (1 + int k) lim)"

datatype c2s_pc = C2S_Copy | C2S_Done

datatype s2c_pc = S2C_Headers string | S2C_Body | S2C_Done

record pump =
  c_in :: string
  s_in :: string
  s_buf :: string
  c_dead :: bool
  s_dead :: bool
  to_server :: string
  to_client :: string
  c2s :: c2s_pc
  s2c :: s2c_pc
  closes :: "event list"

definition c2s_finish :: "pump \<Rightarrow> pump" where
  "c2s_finish st = st\<lparr>c2s := C2S_Done, s_dead := True, closes := closes st @ [Close Origin]\<rparr>"

definition s2c_finish :: "pump \<Rightarrow> pump" where
  "s2c_finish st = st\<lparr>s2c := S2C_Done, c_dead := True, closes := closes st @ [Close ClientTLS]\<rparr>"

definition c2s_step :: "nat \<Rightarrow> pump \<Rightarrow> pump" where
  "c2s_step k st =
     (case c2s st of
        C2S_Done \<Rightarrow> st
      | C2S_Copy \<Rightarrow>
          (if c_dead st \<or> c_in st = [] then c2s_finish st
           else
             (let n = read_size k 32768;
                  st' = st\<lparr>c_in := drop n (c_in st)\<rparr>
              in if s_dead st then c2s_finish st'
                 else st'\<lparr>to_server := to_server st @ take n (c_in st)\<rparr>)))"

definition s2c_step :: "nat \<Rightarrow> pump \<Rightarrow> pump" where
  "s2c_step k st =
     (case s2c st of
        S2C_Done \<Rightarrow> st
      | S2C_Headers response \<Rightarrow>
          (if has_line (s_buf st) then
             (let line = first_line (s_buf st); st' = st\<lparr>s_buf := after_line (s_buf st)\<rparr> in
              if line = CRLF then
                (if c_dead st then s2c_finish st'
                 else st'\<lparr>to_client := to_client st @ response @ line, s2c := S2C_Body\<rparr>)
              else st'\<lparr>s2c := S2C_Headers (response @ line)\<rparr>)
           else if s_dead st \<or> s_in st = [] then s2c_finish st
           else
             (let n = read_size k 4096 in
              st\<lparr>s_buf := s_buf st @ take n (s_in st), s_in := drop n (s_in st)\<rparr>))
      | S2C_Body \<Rightarrow>
          (if s_buf st \<noteq> [] then
             (let st' = st\<lparr>s_buf := []\<rparr> in
              if c_dead st then s2c_finish st'
              else st'\<lparr>to_client := to_client st @ s_buf st\<rparr>)
           else if s_dead st \<or> s_in st = [] then s2c_finish st
           else
             (let n = read_size k 32768;
                  st' = st\<lparr>s_in := drop n (s_in st)\<rparr>
              in if c_dead st then s2c_finish st'
                 else st'\<lparr>to_client := to_client st @ take n (s_in st)\<rparr>)))"

definition act :: "action \<Rightarrow> pump \<Rightarrow> pump" where
  "act a st =
     (case a of
        StepC2S k \<Rightarrow> c2s_step k st
      | StepS2C k \<Rightarrow> s2c_step k st
      | ResetClient \<Rightarrow> st\<lparr>c_dead := True\<rparr>
      | ResetOrigin \<Rightarrow> st\<lparr>s_dead := True\<rparr>)"

definition pump_init :: "string \<Rightarrow> string \<Rightarrow> pump" where
  "pump_init cin sin =
     \<lparr>c_in = cin, s_in = sin, s_buf = [], c_dead = False, s_dead = False, to_server = [],
      to_client = [], c2s = C2S_Copy, s2c = S2C_Headers [], closes = []\<rparr>"

text \<open>The scheduled actions, one after the other.\<close>

fun run :: "action list \<Rightarrow> pump \<Rightarrow> pump" where
  "run [] st = st"
| "run (a # sched) st = run sched (act a st)"

text \<open>
  \<^verbatim>\<open>wg.Wait()\<close>: after the scheduled actions, each goroutine that is still running runs to
  its end, its reads returning as much as the buffers take, and only then does
  \<^verbatim>\<open>tunnelConnections\<close> return. Every step uses up a byte or ends the goroutine, so both loops
  end.
\<close>

lemma read_size_pos: "0 < lim \<Longrightarrow> 0 < read_size k lim"
  by (simp add: read_size_def)

function c2s_run :: "pump \<Rightarrow> pump" where
  "c2s_run st = (if c2s st = C2S_Done then st else c2s_run (c2s_step (length (c_in st)) st))"
  by pat_completeness auto
termination
proof (relation "measure (\<lambda>st. if c2s st = C2S_Done then 0 else Suc (length (c_in st)))")
  show "wf (measure (\<lambda>st. if c2s st = C2S_Done then 0 else Suc (length (c_in st))))"
    by simp
next
  fix st :: pump
  assume "c2s st \<noteq> C2S_Done"
  moreover have "0 < read_size (length (c_in st)) 32768"
    by (rule read_size_pos) simp
  ultimately show "(c2s_step (length (c_in st)) st, st)
          \<in> measure (\<lambda>st. if c2s st = C2S_Done then 0 else Suc (length (c_in st)))"
    by (cases "c2s st") (auto simp: c2s_step_def c2s_finish_def Let_def)
qed

declare c2s_run.simps [simp del]

function s2c_run :: "pump \<Rightarrow> pump" where
  "s2c_run st = (if s2c st = S2C_Done then st else s2c_run (s2c_step (length (s_in st)) st))"
  by pat_completeness auto
termination
proof (relation "measure (\<lambda>st. if s2c st = S2C_Done then 0
                                 else Suc (2 * length (s_in st) + length (s_buf st)))")
  show "wf (measure (\<lambda>st. if s2c st = S2C_Done then 0
                            else Suc (2 * length (s_in st) + length (s_buf st))))"
    by simp
next
  fix st :: pump
  assume "s2c st \<noteq> S2C_Done"
  moreover have "0 < read_size (length (s_in st)) 32768" "0 < read_size (length (s_in st)) 4096"
    by (rule read_size_pos, simp)+
  moreover have "has_line (s_buf st) \<Longrightarrow> length (after_line (s_buf st)) < length (s_buf st)"
    by (rule after_line_shorter)
  ultimately show "(s2c_step (length (s_in st)) st, st)
          \<in> measure (\<lambda>st. if s2c st = S2C_Done then 0
                            else Suc (2 * length (s_in st) + length (s_buf st)))"
    by (cases "s2c st") (auto simp: s2c_step_def s2c_finish_def Let_def min_def)
qed

declare s2c_run.simps [simp del]

definition drain :: "pump \<Rightarrow> pump" where
  "drain st = s2c_run (c2s_run st)"

definition tunnelConnections :: "action list \<Rightarrow> string \<Rightarrow> string \<Rightarrow> pump" where
  "tunnelConnections sched cin sin = drain (run sched (pump_init cin sin))"

section \<open>The handlers\<close>

definition JoinHostPort :: "string \<Rightarrow> string \<Rightarrow> string" where
  "JoinHostPort h p = (if CHR '':'' \<in> set h then ''['' @ h @ '']:'' @ p else h @ '':'' @ p)"

text \<open>
  \<^verbatim>\<open>checkAndBlockHost\<close>: a blocklist that cannot be opened or scanned to its end lets the
  request through; a blocked host gets the 403 page, whose write error is only logged.
\<close>

definition checkAndBlockHost :: "world \<Rightarrow> string \<Rightarrow> event list \<times> bool" where
  "checkAndBlockHost w domain =
     (case checkHost (simple_fold w) domain (blocked w) of
        Inl e \<Rightarrow> ([CheckBlocklist domain], False)
      | Inr ok \<Rightarrow>
          (if \<not> ok then ([CheckBlocklist domain, Write Client (forbidden_response domain)], True)
           else ([CheckBlocklist domain], False)))"

definition forwardResponse :: "world \<Rightarrow> reader \<Rightarrow> event list" where
  "forwardResponse w server =
     (case parseResponse server of
        Inl e \<Rightarrow> []
      | Inr (resp, r') \<Rightarrow> [Write Client (RawResponse resp)])"

definition handleHTTP :: "world \<Rightarrow> reader \<Rightarrow> event list" where
  "handleHTTP w r =
     [SetDeadline Client 30] @
     (case parseRequest r of
        Inl e \<Rightarrow> []
      | Inr (req, r') \<Rightarrow>
          (case checkAndBlockHost w (Host req) of
             (evs, True) \<Rightarrow> evs
           | (evs, False) \<Rightarrow>
               evs @ [Dial (JoinHostPort (Host req) (Port req))] @
               (case origin w of
                  None \<Rightarrow> []
                | Some server \<Rightarrow>
                    [Write Origin (Raw req)] @
                    (if origin_write_ok w then forwardResponse w server else []) @
                    [Close Origin])))
     @ [Close Client]"

datatype tunnel_error =
  Send200Failed | LoadRootCAFailed | CertificateFailed | HandshakeFailed | ConnectTargetFailed

definition connection_established :: string where
  "connection_established = ''HTTP/1.1 200 Connection Established'' @ CRLF @ CRLF"

definition establishMITMTunnel ::
  "world \<Rightarrow> string \<Rightarrow> string \<Rightarrow> event list \<times> tunnel_error option" where
  "establishMITMTunnel w target domain =
     (if \<not> client_write_ok w then ([Write Client connection_established], Some Send200Failed)
      else
        (case root_ca w of
           None \<Rightarrow> ([Write Client connection_established, LoadRootCA], Some LoadRootCAFailed)
         | Some rootCA \<Rightarrow>
             (case generateCertificate (mint w) domain rootCA of
                Inl e \<Rightarrow>
                  ([Write Client connection_established, LoadRootCA, GenerateCertificate domain],
                   Some CertificateFailed)
              | Inr fakeCert \<Rightarrow>
                  (if \<not> handshake_ok w then
                     ([Write Client connection_established, LoadRootCA,
                       GenerateCertificate domain, Handshake], Some HandshakeFailed)
                   else
                     (case origin w of
                        None \<Rightarrow>
                          ([Write Client connection_established, LoadRootCA,
                            GenerateCertificate domain, Handshake, DialTLS target],
                           Some ConnectTargetFailed)
                      | Some server \<Rightarrow>
                          ([Write Client connection_established, LoadRootCA,
                            GenerateCertificate domain, Handshake, DialTLS target]
                           @ closes (tunnelConnections (schedule w) (tls_client_in w)
                                       (unread server))
                           @ [Close Origin], None))))))"

definition handleHTTPS :: "world \<Rightarrow> reader \<Rightarrow> event list" where
  "handleHTTPS w r =
     (case processConnectRequest r of
        Inl e \<Rightarrow> []
      | Inr (target, domain) \<Rightarrow>
          (case checkAndBlockHost w domain of
             (evs, True) \<Rightarrow> evs
           | (evs, False) \<Rightarrow> evs @ fst (establishMITMTunnel w target domain)))
     @ [Close Client]"

definition handleConnection :: "world \<Rightarrow> event list" where
  "handleConnection w =
     [SetDeadline Client 30] @
     (case Peek (client_in w) 7 of
        Inl e \<Rightarrow> []
      | Inr peek \<Rightarrow>
          (if peek = ''CONNECT'' then handleHTTPS w (client_in w)
           else handleHTTP w (client_in w)))
     @ [Close Client]"

section \<open>Vocabulary of the statements\<close>

text \<open>
  A complete line is what \<^verbatim>\<open>ReadString('\n')\<close> returns without error: bytes without a line
  feed, then one line feed. A Host line is a header line that \<^verbatim>\<open>parseRequest\<close> treats as the
  \<^verbatim>\<open>Host\<close> header: it has a colon, and the text before the first one trims to \<^verbatim>\<open>Host\<close>.
\<close>

definition complete_line :: "string \<Rightarrow> bool" where
  "complete_line l = (l \<noteq> [] \<and> last l = LF \<and> LF \<notin> set (butlast l))"

definition host_line :: "string \<Rightarrow> bool" where
  "host_line l = (CHR '':'' \<in> set l \<and> TrimSpace (takeWhile (\<lambda>c. c \<noteq> CHR '':'') l) = ''Host'')"

text \<open>The payloads of the calls \<^verbatim>\<open>server.Write\<close>, in order.\<close>

fun origin_writes :: "event list \<Rightarrow> string list" where
  "origin_writes [] = []"
| "origin_writes (Write Origin bs # evs) = bs # origin_writes evs"
| "origin_writes (ev # evs) = origin_writes evs"


text \<open>
  The name and the value of a response header line as \<^verbatim>\<open>parseResponse\<close> cuts them, and the
  map that stores under each name, compared byte for byte, the trimmed value of the last
  line with that name.
\<close>

definition header_key :: "string \<Rightarrow> string option" where
  "header_key l =
     (if CHR '':'' \<in> set l then Some (TrimSpace (takeWhile (\<lambda>c. c \<noteq> CHR '':'') l)) else None)"

definition header_value :: "string \<Rightarrow> string" where
  "header_value l = TrimSpace (tl (dropWhile (\<lambda>c. c \<noteq> CHR '':'') l))"

definition header_map :: "string list \<Rightarrow> (string \<rightharpoonup> string)" where
  "header_map hs n =
     (let ls = filter (\<lambda>l. header_key l = Some n) hs
      in if ls = [] then None else Some (header_value (last ls)))"


text \<open>
  The hosts that the scan of the blocklist reaches: the trimmed non-empty lines of a file
  that can be opened, up to the first line that is too long for the scanner.
\<close>

definition scanned_hosts :: "blocked_file \<Rightarrow> string list" where
  "scanned_hosts f =
     (case f of
        Unreadable \<Rightarrow> []
      | File ls err \<Rightarrow>
          filter (\<lambda>b. b \<noteq> [])
            (map (\<lambda>l. TrimSpace (dropCR l)) (takeWhile (\<lambda>l. \<not> too_long l) ls)))"

text \<open>
  A host is listed when it equals one of these hosts under \<^verbatim>\<open>strings.EqualFold\<close>.
\<close>

definition listed :: "world \<Rightarrow> string \<Rightarrow> bool" where
  "listed w d = (\<exists>H \<in> set (scanned_hosts (blocked w)). EqualFold (simple_fold w) d H)"

text \<open>
  A trace checks before it dials when every \<open>Dial\<close> and \<open>DialTLS\<close> comes after a
  \<open>CheckBlocklist\<close>.
\<close>

fun checked_before_dial :: "bool \<Rightarrow> event list \<Rightarrow> bool" where
  "checked_before_dial seen [] = True"
| "checked_before_dial seen (CheckBlocklist d # evs) = checked_before_dial True evs"
| "checked_before_dial seen (Dial t # evs) = (seen \<and> checked_before_dial seen evs)"
| "checked_before_dial seen (DialTLS t # evs) = (seen \<and> checked_before_dial seen evs)"
| "checked_before_dial seen (ev # evs) = checked_before_dial seen evs"

text \<open>
  The world of the scenarios: the client sends \<open>request\<close> and closes, the blocklist file has
  the lines \<open>blocked_lines\<close> and can be read, the origin is \<open>org\<close>, and every other step
  succeeds. The hosts of the scenarios are ASCII, so that the answer of
  \<^verbatim>\<open>unicode.SimpleFold\<close> is never asked for. The clock of the scenarios advances by a
  microsecond from one read to the next; the keys, the digest and the encoding of the
  scenarios are placeholders, no statement depends on what they are.
\<close>

definition scenario_mint :: minting where
  "scenario_mint =
     \<lparr>rsa_GenerateKey = Some 1, rsa_PublicKey = (\<lambda>key. key),
      clock = (\<lambda>i. 1700000000000000000 + 1000 * int i),
      RFC3339Nano = (\<lambda>t. ''2023-11-14T22:13:20Z''),
      sha256 = (\<lambda>b. [CHR 0x01, CHR 0x00]),
      x509_CreateCertificate = (\<lambda>template parent pub priv. Some [])\<rparr>"

definition scenario_root :: tls_certificate where
  "scenario_root =
     \<lparr>Certificate = [[]], PrivateKey = 0,
      Leaf = Some \<lparr>SerialNumber = 1, CommonName = ''root'', DNSNames = [],
                    NotBefore = 1600000000000000000, NotAfter = 1900000000000000000,
                    KeyUsage = {KeyUsageCertSign}, ExtKeyUsage = [],
                    BasicConstraintsValid = True, IsCA = True, SubjectKeyId = []\<rparr>\<rparr>"

definition no_folds :: "int \<Rightarrow> int \<Rightarrow> bool" where
  "no_folds lo hi = False"

definition scenario :: "string \<Rightarrow> string list \<Rightarrow> reader option \<Rightarrow> world" where
  "scenario request blocked_lines org =
     \<lparr>client_in = \<lparr>unread = request, final_err = EOF\<rparr>,
      blocked = File blocked_lines False, simple_fold = no_folds, client_write_ok = True,
      origin = org, origin_write_ok = True, root_ca = Some scenario_root, mint = scenario_mint,
      handshake_ok = True, tls_client_in = [], schedule = []\<rparr>"

text \<open>
  The close events of the tunnel are those of the goroutines that have ended.
\<close>

definition inv_closes :: "pump \<Rightarrow> bool" where
  "inv_closes st =
     ((c2s st = C2S_Copy \<and> s2c st \<noteq> S2C_Done \<and> closes st = [])
      \<or> (c2s st = C2S_Done \<and> s2c st \<noteq> S2C_Done \<and> closes st = [Close Origin])
      \<or> (c2s st = C2S_Copy \<and> s2c st = S2C_Done \<and> closes st = [Close ClientTLS])
      \<or> (c2s st = C2S_Done \<and> s2c st = S2C_Done
          \<and> (closes st = [Close Origin, Close ClientTLS]
              \<or> closes st = [Close ClientTLS, Close Origin])))"

text \<open>
  Counters on a trace: the calls of \<^verbatim>\<open>Close\<close> that close the client socket (on the socket or
  on its TLS wrapper), those on the origin connection, and the calls of \<^verbatim>\<open>net.Dial\<close> and
  of \<^verbatim>\<open>tls.Dial\<close>.
\<close>

definition client_closes :: "event list \<Rightarrow> nat" where
  "client_closes evs = count_list evs (Close Client) + count_list evs (Close ClientTLS)"

definition origin_closes :: "event list \<Rightarrow> nat" where
  "origin_closes evs = count_list evs (Close Origin)"

fun plain_dials :: "event list \<Rightarrow> nat" where
  "plain_dials [] = 0"
| "plain_dials (Dial t # evs) = Suc (plain_dials evs)"
| "plain_dials (ev # evs) = plain_dials evs"

fun tls_dials :: "event list \<Rightarrow> nat" where
  "tls_dials [] = 0"
| "tls_dials (DialTLS t # evs) = Suc (tls_dials evs)"
| "tls_dials (ev # evs) = tls_dials evs"


section \<open>Facts about the string helpers and the readers\<close>

lemma Split_not_Nil: "Split s sep \<noteq> []"
  by (induction s) (auto split: list.splits)

lemma hd_Split: "hd (Split s sep) = takeWhile (\<lambda>c. c \<noteq> sep) s"
  by (induction s) (auto simp: Split_not_Nil split: list.splits)

lemma Split_at_first:
  "sep \<in> set s \<Longrightarrow>
     Split s sep = takeWhile (\<lambda>c. c \<noteq> sep) s # Split (tl (dropWhile (\<lambda>c. c \<noteq> sep) s)) sep"
proof (induction s)
  case Nil
  then show ?case by simp
next
  case (Cons c cs)
  show ?case
  proof (cases "c = sep")
    case True
    then show ?thesis by simp
  next
    case False
    with Cons.prems have "sep \<in> set cs" by simp
    from Cons.IH [OF this] False show ?thesis by simp
  qed
qed

lemma length_Split: "length (Split s sep) = Suc (count_list s sep)"
  by (induction s) (auto simp: Split_not_Nil split: list.splits)

lemma SplitN2_key:
  assumes "sep \<notin> set k"
  shows "SplitN2 (k @ sep # raw) sep = [k, raw]"
proof -
  have "takeWhile (\<lambda>c. c \<noteq> sep) (k @ sep # raw) = k"
    using assms by (induction k) auto
  moreover have "dropWhile (\<lambda>c. c \<noteq> sep) (k @ sep # raw) = sep # raw"
    using assms by (induction k) auto
  ultimately show ?thesis by (simp add: SplitN2_def)
qed

lemma takeWhile_until: "x \<notin> set l \<Longrightarrow> takeWhile (\<lambda>c. c \<noteq> x) (l @ x # rest) = l"
  by (induction l) auto

lemma dropWhile_until: "x \<notin> set l \<Longrightarrow> dropWhile (\<lambda>c. c \<noteq> x) (l @ x # rest) = x # rest"
  by (induction l) auto

lemma complete_lineE:
  assumes "complete_line l"
  obtains l' where "l = l' @ [LF]" and "LF \<notin> set l'"
proof -
  from assms have "l = butlast l @ [LF]" and "LF \<notin> set (butlast l)"
    by (auto simp: complete_line_def dest: append_butlast_last_id [symmetric])
  then show thesis using that by blast
qed

lemma ReadString_complete_line:
  assumes "complete_line l"
  shows "ReadString \<lparr>unread = l @ rest, final_err = e\<rparr> = (l, None, \<lparr>unread = rest, final_err = e\<rparr>)"
proof -
  from assms obtain l' where l: "l = l' @ [LF]" and n: "LF \<notin> set l'"
    by (rule complete_lineE)
  have u: "l @ rest = l' @ LF # rest" by (simp add: l)
  show ?thesis
    unfolding ReadString_def has_line_def first_line_def after_line_def
    by (simp add: u takeWhile_until [OF n] dropWhile_until [OF n] l)
qed

lemma CRLF_complete: "complete_line CRLF"
  by (simp add: complete_line_def CRLF_def CR_def LF_def)

section \<open>The string helpers outside ASCII\<close>

text \<open>
  \<^verbatim>\<open>strings.TrimSpace\<close> cuts the white space of Unicode once it meets a byte outside ASCII
  (here U+00A0, U+2003 and U+3000), and leaves bytes that are no valid UTF-8 alone;
  \<^verbatim>\<open>strings.EqualFold\<close> folds runes outside ASCII as \<^verbatim>\<open>unicode.SimpleFold\<close> says (here the
  Kelvin sign U+212A, which folds to \<^verbatim>\<open>k\<close>), and takes every invalid byte for the same rune;
  \<^verbatim>\<open>strconv.Atoi\<close> reports a number that is out of range before it looks at what follows.
\<close>

lemma TrimSpace_examples:
  "TrimSpace ([CHR 0xC2, CHR 0xA0] @ '' a b '' @ [CHR 0xE2, CHR 0x80, CHR 0x83, CHR 0x20]) = ''a b''"
  "TrimSpace ('' v'' @ [CHR 0xE3, CHR 0x80, CHR 0x80] @ CRLF) = ''v''"
  "TrimSpace ('' v'' @ [CHR 0xA0, CHR 0x20]) = ''v'' @ [CHR 0xA0]"
  "TrimSpace ([CHR 0x0B, CHR 0x0C] @ ''Host'' @ [CHR 0x09]) = ''Host''"
  by code_simp+

lemma EqualFold_examples:
  "EqualFold folds ''Example.TEST'' ''eXAMPLE.test''"
  "\<not> EqualFold folds ''example.test'' ''example.tes''"
  "\<not> EqualFold folds ''[a'' ''{a''"
  "EqualFold (\<lambda>lo hi. lo = 0x6B \<and> hi = 0x212A) ''ok'' (''O'' @ [CHR 0xE2, CHR 0x84, CHR 0xAA])"
  "EqualFold folds [CHR 0xFF] [CHR 0xFE]"
  by code_simp+

lemma Atoi_examples:
  "Atoi ''200'' = 200" "Atoi ''-7'' = - 7" "Atoi ''+7'' = 7" "Atoi ''12a'' = 0" "Atoi [] = 0"
  "Atoi ''9223372036854775808'' = 9223372036854775807"
  "Atoi ''18446744073709551616x'' = 9223372036854775807"
  "Atoi ''-18446744073709551616'' = - 9223372036854775808"
  by code_simp+

text \<open>
  The parsers on such input: a request line that starts with U+00A0 has two tokens after
  trimming, a \<^verbatim>\<open>Host\<close> value and a response header value are trimmed of U+00A0.
\<close>

lemma parsers_trim_unicode_space:
  "parseRequest \<lparr>unread = [CHR 0xC2, CHR 0xA0] @ '' a b'' @ CRLF @ CRLF, final_err = EOF\<rparr>
     = Inl MalformedRequestLine"
  "(case parseRequest \<lparr>unread = ''GET / HTTP/1.1'' @ CRLF @ ''Host:'' @ [CHR 0xC2, CHR 0xA0]
                                  @ ''a:b:c'' @ CRLF @ CRLF, final_err = EOF\<rparr> of
      Inl err \<Rightarrow> False
    | Inr (req, r') \<Rightarrow> Host req = ''a'' \<and> Port req = ''b'')"
  "(case parseResponse \<lparr>unread = ''HTTP/1.1 200 OK'' @ CRLF @ ''X-A:'' @ [CHR 0xC2, CHR 0xA0]
                                   @ ''v'' @ CRLF @ CRLF, final_err = EOF\<rparr> of
      Inl err \<Rightarrow> False
    | Inr (resp, r') \<Rightarrow> Headers resp ''X-A'' = Some ''v'')"
  by code_simp+

section \<open>Parsing a well-formed header block\<close>

lemma request_headers_block:
  assumes "\<forall>l \<in> set hs. complete_line l \<and> l \<noteq> CRLF"
  shows "request_headers \<lparr>unread = concat hs @ CRLF @ body, final_err = e\<rparr> req raw =
           Inr ((fold request_header hs req)\<lparr>Raw := raw @ concat hs @ CRLF\<rparr>,
                \<lparr>unread = body, final_err = e\<rparr>)"
  using assms
proof (induction hs arbitrary: req raw)
  case Nil
  have "ReadString \<lparr>unread = CRLF @ body, final_err = e\<rparr> = (CRLF, None, \<lparr>unread = body, final_err = e\<rparr>)"
    by (rule ReadString_complete_line [OF CRLF_complete])
  then show ?case by (simp add: request_headers.simps [of "\<lparr>unread = CRLF @ body, final_err = e\<rparr>"])
next
  case (Cons l hs)
  then have cl: "complete_line l" and ne: "l \<noteq> CRLF"
    and rest: "\<forall>l \<in> set hs. complete_line l \<and> l \<noteq> CRLF"
    by simp_all
  have rs: "ReadString \<lparr>unread = l @ (concat hs @ CRLF @ body), final_err = e\<rparr>
            = (l, None, \<lparr>unread = concat hs @ CRLF @ body, final_err = e\<rparr>)"
    by (rule ReadString_complete_line [OF cl])
  show ?case
    using rs ne Cons.IH [OF rest, of "request_header l req" "raw @ l"]
    by (simp add: request_headers.simps [of "\<lparr>unread = l @ concat hs @ CRLF @ body, final_err = e\<rparr>"])
qed


lemma parseRequest_block:
  assumes "complete_line first" and "3 \<le> length (Split (TrimSpace first) (CHR '' ''))"
    and "\<forall>l \<in> set hs. complete_line l \<and> l \<noteq> CRLF"
  shows "parseRequest \<lparr>unread = first @ concat hs @ CRLF @ body, final_err = e\<rparr> =
           Inr ((fold request_header hs
                   (new_request\<lparr>Method := Split (TrimSpace first) (CHR '' '') ! 0,
                                Path := Split (TrimSpace first) (CHR '' '') ! 1,
                                Protocol := Split (TrimSpace first) (CHR '' '') ! 2\<rparr>))
                 \<lparr>Raw := first @ concat hs @ CRLF\<rparr>,
                \<lparr>unread = body, final_err = e\<rparr>)"
proof -
  have rs: "ReadString \<lparr>unread = first @ (concat hs @ CRLF @ body), final_err = e\<rparr>
            = (first, None, \<lparr>unread = concat hs @ CRLF @ body, final_err = e\<rparr>)"
    by (rule ReadString_complete_line [OF assms(1)])
  show ?thesis
    using rs assms(2) by (simp add: parseRequest_def Let_def request_headers_block [OF assms(3)])
qed

section \<open>The Host header\<close>

lemma request_header_Host:
  assumes "TrimSpace k = ''Host''" and "CHR '':'' \<notin> set k"
  shows "request_header (k @ CHR '':'' # raw) req =
     (let hostParts = Split (TrimSpace raw) (CHR '':'') in
      if length hostParts > 1 then req\<lparr>Host := hostParts ! 0, Port := hostParts ! 1\<rparr>
      else req\<lparr>Host := hostParts ! 0\<rparr>)"
  using assms by (simp add: request_header_def SplitN2_key Let_def)

lemma host_port_first_two_colons:
  assumes "TrimSpace k = ''Host''" and "CHR '':'' \<notin> set k"
    and "1 < count_list (TrimSpace raw) (CHR '':'')"
  shows "Host (request_header (k @ CHR '':'' # raw) req)
           = takeWhile (\<lambda>c. c \<noteq> CHR '':'') (TrimSpace raw)
       \<and> Port (request_header (k @ CHR '':'' # raw) req)
           = takeWhile (\<lambda>c. c \<noteq> CHR '':'') (tl (dropWhile (\<lambda>c. c \<noteq> CHR '':'') (TrimSpace raw)))"
proof -
  let ?v = "TrimSpace raw"
  let ?ps = "Split ?v (CHR '':'')"
  from assms(3) have mem: "CHR '':'' \<in> set ?v"
    by (metis count_notin less_nat_zero_code not_less_zero zero_less_one_class.zero_less_one less_trans)
  have len: "length ?ps > 1"
    using assms(3) by (simp add: length_Split)
  have ps: "?ps = takeWhile (\<lambda>c. c \<noteq> CHR '':'') ?v
               # Split (tl (dropWhile (\<lambda>c. c \<noteq> CHR '':'') ?v)) (CHR '':'')"
    by (rule Split_at_first [OF mem])
  have p0: "?ps ! 0 = takeWhile (\<lambda>c. c \<noteq> CHR '':'') ?v"
    by (subst ps) simp
  have "?ps ! 1 = hd (Split (tl (dropWhile (\<lambda>c. c \<noteq> CHR '':'') ?v)) (CHR '':''))"
    by (subst ps) (simp add: hd_conv_nth Split_not_Nil)
  then have p1: "?ps ! 1 = takeWhile (\<lambda>c. c \<noteq> CHR '':'') (tl (dropWhile (\<lambda>c. c \<noteq> CHR '':'') ?v))"
    by (simp add: hd_Split)
  show ?thesis
    using len p0 p1 by (simp add: request_header_Host [OF assms(1,2)] Let_def)
qed


lemma request_header_other:
  assumes "\<not> host_line l"
  shows "Host (request_header l q) = Host q \<and> Port (request_header l q) = Port q"
  using assms by (simp add: request_header_def SplitN2_def host_line_def Let_def)

lemma fold_request_header_other:
  assumes "\<forall>l \<in> set hs. \<not> host_line l"
  shows "Host (fold request_header hs q) = Host q \<and> Port (fold request_header hs q) = Port q"
  using assms by (induction hs arbitrary: q) (simp_all add: request_header_other)

lemma Host_Raw_update [simp]: "Host (q\<lparr>Raw := x\<rparr>) = Host q" "Port (q\<lparr>Raw := x\<rparr>) = Port q"
  by simp_all

text \<open>
  Claim C9. A \<^verbatim>\<open>Host\<close> header whose value has more than one colon: \<^verbatim>\<open>parseRequest\<close> takes
  the text before the first colon as the host and the text between the first and the
  second colon as the port, whatever follows the second colon. The request is any request
  line of at least three tokens, any header lines, the \<^verbatim>\<open>Host\<close> line, any header lines that
  are not \<^verbatim>\<open>Host\<close> lines, the empty line and a body. For \<^verbatim>\<open>Host: [::1]:8080\<close> the host is
  \<^verbatim>\<open>[\<close> and the port is empty.
\<close>

theorem parseRequest_host_port_colons:
  assumes "complete_line first" and "3 \<le> length (Split (TrimSpace first) (CHR '' ''))"
    and "\<forall>l \<in> set (hs1 @ hs2). complete_line l \<and> l \<noteq> CRLF"
    and "\<forall>l \<in> set hs2. \<not> host_line l"
    and "TrimSpace k = ''Host''" and "CHR '':'' \<notin> set k"
    and "complete_line (k @ CHR '':'' # raw)"
    and "1 < count_list (TrimSpace raw) (CHR '':'')"
  shows "\<exists>req. parseRequest
                  \<lparr>unread = first @ concat hs1 @ (k @ CHR '':'' # raw) @ concat hs2 @ CRLF @ body,
                   final_err = e\<rparr>
                = Inr (req, \<lparr>unread = body, final_err = e\<rparr>)
             \<and> Host req = takeWhile (\<lambda>c. c \<noteq> CHR '':'') (TrimSpace raw)
             \<and> Port req = takeWhile (\<lambda>c. c \<noteq> CHR '':'')
                             (tl (dropWhile (\<lambda>c. c \<noteq> CHR '':'') (TrimSpace raw)))"
proof -
  let ?hl = "k @ CHR '':'' # raw"
  let ?hs = "hs1 @ [?hl] @ hs2"
  have "?hl \<noteq> CRLF"
    by (cases k; cases "tl k") (auto simp: CRLF_def CR_def LF_def)
  with assms(3,7) have block: "\<forall>l \<in> set ?hs. complete_line l \<and> l \<noteq> CRLF"
    by auto
  have cat: "first @ concat hs1 @ ?hl @ concat hs2 @ CRLF @ body = first @ concat ?hs @ CRLF @ body"
    by simp
  let ?q0 = "new_request\<lparr>Method := Split (TrimSpace first) (CHR '' '') ! 0,
                          Path := Split (TrimSpace first) (CHR '' '') ! 1,
                          Protocol := Split (TrimSpace first) (CHR '' '') ! 2\<rparr>"
  let ?req = "(fold request_header ?hs ?q0)\<lparr>Raw := first @ concat ?hs @ CRLF\<rparr>"
  have p: "parseRequest \<lparr>unread = first @ concat hs1 @ ?hl @ concat hs2 @ CRLF @ body, final_err = e\<rparr>
             = Inr (?req, \<lparr>unread = body, final_err = e\<rparr>)"
    unfolding cat by (rule parseRequest_block [OF assms(1,2) block])
  have f: "fold request_header ?hs ?q0
             = fold request_header hs2 (request_header ?hl (fold request_header hs1 ?q0))"
    by simp
  have hp: "Host ?req = takeWhile (\<lambda>c. c \<noteq> CHR '':'') (TrimSpace raw)
          \<and> Port ?req = takeWhile (\<lambda>c. c \<noteq> CHR '':'')
                             (tl (dropWhile (\<lambda>c. c \<noteq> CHR '':'') (TrimSpace raw)))"
    using fold_request_header_other [OF assms(4), of "request_header ?hl (fold request_header hs1 ?q0)"]
      host_port_first_two_colons [OF assms(5,6,8), of "fold request_header hs1 ?q0"]
    by (simp only: f Host_Raw_update)
  from p hp show ?thesis by blast
qed

theorem parseRequest_host_port_colons_witness:
  "\<exists>req. parseRequest
            \<lparr>unread = ''GET / HTTP/1.1'' @ CRLF @ ''Host: [::1]:8080'' @ CRLF
                        @ ''User-Agent: curl'' @ CRLF @ CRLF @ ''body'',
             final_err = EOF\<rparr>
          = Inr (req, \<lparr>unread = ''body'', final_err = EOF\<rparr>)
        \<and> Host req = ''['' \<and> Port req = []"
proof -
  have 1: "complete_line (''GET / HTTP/1.1'' @ CRLF)" by code_simp
  have 2: "3 \<le> length (Split (TrimSpace (''GET / HTTP/1.1'' @ CRLF)) (CHR '' ''))" by code_simp
  have 3: "\<forall>l \<in> set ([] @ [''User-Agent: curl'' @ CRLF]). complete_line l \<and> l \<noteq> CRLF" by code_simp
  have 4: "\<forall>l \<in> set [''User-Agent: curl'' @ CRLF]. \<not> host_line l" by code_simp
  have 5: "TrimSpace ''Host'' = ''Host''" by code_simp
  have 6: "CHR '':'' \<notin> set ''Host''" by code_simp
  have 7: "complete_line (''Host'' @ CHR '':'' # ('' [::1]:8080'' @ CRLF))" by code_simp
  have 8: "1 < count_list (TrimSpace ('' [::1]:8080'' @ CRLF)) (CHR '':'')" by code_simp
  have h: "takeWhile (\<lambda>c. c \<noteq> CHR '':'') (TrimSpace ('' [::1]:8080'' @ CRLF)) = ''[''"
    by code_simp
  have p: "takeWhile (\<lambda>c. c \<noteq> CHR '':'')
             (tl (dropWhile (\<lambda>c. c \<noteq> CHR '':'') (TrimSpace ('' [::1]:8080'' @ CRLF)))) = []"
    by code_simp
  have u: "(''GET / HTTP/1.1'' @ CRLF) @ concat [] @ (''Host'' @ CHR '':'' # ('' [::1]:8080'' @ CRLF))
              @ concat [''User-Agent: curl'' @ CRLF] @ CRLF @ ''body''
           = ''GET / HTTP/1.1'' @ CRLF @ ''Host: [::1]:8080'' @ CRLF
               @ ''User-Agent: curl'' @ CRLF @ CRLF @ ''body''"
    by simp
  from parseRequest_host_port_colons [OF 1 2 3 4 5 6 7 8, of "''body''" EOF]
  show ?thesis
    unfolding h p u .
qed

section \<open>What the plaintext forwarder reads and forwards\<close>

lemma origin_writes_append [simp]: "origin_writes (xs @ ys) = origin_writes xs @ origin_writes ys"
  by (induction xs rule: origin_writes.induct) simp_all

lemma origin_writes_checkAndBlockHost [simp]: "origin_writes (fst (checkAndBlockHost w d)) = []"
  by (simp add: checkAndBlockHost_def split: sum.splits)

lemma origin_writes_forwardResponse [simp]: "origin_writes (forwardResponse w server) = []"
  by (simp add: forwardResponse_def split: sum.splits prod.splits)

lemma handleHTTP_origin_writes:
  assumes "parseRequest r = Inr (req, r')"
  shows "origin_writes (handleHTTP w r) = [] \<or> origin_writes (handleHTTP w r) = [Raw req]"
proof (cases "checkAndBlockHost w (Host req)")
  case (Pair evs b)
  then have "origin_writes evs = []"
    using origin_writes_checkAndBlockHost [of w "Host req"] by simp
  with Pair assms show ?thesis
    by (cases b) (simp_all add: handleHTTP_def split: option.splits)
qed

text \<open>
  Claim C10, as amended. A plaintext request made of a request line of at least three
  tokens, any lines other than \<^verbatim>\<open>"\r\n"\<close> (header lines, and also lines that are a bare line
  feed), a line that is exactly \<^verbatim>\<open>"\r\n"\<close> and a body: \<^verbatim>\<open>parseRequest\<close> consumes the input up to
  and including the first line that is exactly \<^verbatim>\<open>"\r\n"\<close> and leaves the body in the buffered
  reader (which may have taken it from the socket, but hands none of it out), and
  \<^verbatim>\<open>handleHTTP\<close> never reads from that reader again; \<^verbatim>\<open>Raw\<close> is exactly the consumed block;
  and in every world the writes of \<^verbatim>\<open>handleHTTP\<close> to the origin are none (blocked host,
  failed dial) or that block alone, so no byte of the body is forwarded.
\<close>

theorem handleHTTP_header_block_only:
  assumes "complete_line first" and "3 \<le> length (Split (TrimSpace first) (CHR '' ''))"
    and "\<forall>l \<in> set hs. complete_line l \<and> l \<noteq> CRLF"
  shows "\<exists>req. parseRequest \<lparr>unread = first @ concat hs @ CRLF @ body, final_err = e\<rparr>
                 = Inr (req, \<lparr>unread = body, final_err = e\<rparr>)
              \<and> Raw req = first @ concat hs @ CRLF
              \<and> (origin_writes (handleHTTP w \<lparr>unread = first @ concat hs @ CRLF @ body, final_err = e\<rparr>) = []
                 \<or> origin_writes (handleHTTP w \<lparr>unread = first @ concat hs @ CRLF @ body, final_err = e\<rparr>)
                    = [first @ concat hs @ CRLF])"
proof -
  let ?r = "\<lparr>unread = first @ concat hs @ CRLF @ body, final_err = e\<rparr>"
  from parseRequest_block [OF assms, of body e]
  obtain req where p: "parseRequest ?r = Inr (req, \<lparr>unread = body, final_err = e\<rparr>)"
    and raw: "Raw req = first @ concat hs @ CRLF"
    by simp
  from handleHTTP_origin_writes [OF p, of w] raw
  have "origin_writes (handleHTTP w ?r) = [] \<or> origin_writes (handleHTTP w ?r) = [first @ concat hs @ CRLF]"
    by simp
  with p raw show ?thesis by blast
qed

theorem handleHTTP_header_block_only_witness:
  "\<exists>req. parseRequest \<lparr>unread = ''POST /x HTTP/1.1'' @ CRLF @ ''Host: example.test'' @ CRLF
                              @ ''Content-Length: 5'' @ CRLF @ CRLF @ ''hello'', final_err = EOF\<rparr>
           = Inr (req, \<lparr>unread = ''hello'', final_err = EOF\<rparr>)
        \<and> Raw req = ''POST /x HTTP/1.1'' @ CRLF @ ''Host: example.test'' @ CRLF
                       @ ''Content-Length: 5'' @ CRLF @ CRLF
        \<and> origin_writes (handleHTTP
             (scenario [] [''ads.test'']
                (Some \<lparr>unread = ''HTTP/1.1 200 OK'' @ CRLF @ CRLF, final_err = EOF\<rparr>))
             \<lparr>unread = ''POST /x HTTP/1.1'' @ CRLF @ ''Host: example.test'' @ CRLF
                              @ ''Content-Length: 5'' @ CRLF @ CRLF @ ''hello'', final_err = EOF\<rparr>)
           = [''POST /x HTTP/1.1'' @ CRLF @ ''Host: example.test'' @ CRLF
                       @ ''Content-Length: 5'' @ CRLF @ CRLF]"
proof -
  have 1: "complete_line (''POST /x HTTP/1.1'' @ CRLF)" by code_simp
  have 2: "3 \<le> length (Split (TrimSpace (''POST /x HTTP/1.1'' @ CRLF)) (CHR '' ''))" by code_simp
  have 3: "\<forall>l \<in> set [''Host: example.test'' @ CRLF, ''Content-Length: 5'' @ CRLF].
             complete_line l \<and> l \<noteq> CRLF" by code_simp
  have u: "(''POST /x HTTP/1.1'' @ CRLF) @ concat [''Host: example.test'' @ CRLF, ''Content-Length: 5'' @ CRLF]
              @ CRLF @ ''hello''
           = ''POST /x HTTP/1.1'' @ CRLF @ ''Host: example.test'' @ CRLF
                              @ ''Content-Length: 5'' @ CRLF @ CRLF @ ''hello''"
    by simp
  have v: "(''POST /x HTTP/1.1'' @ CRLF) @ concat [''Host: example.test'' @ CRLF, ''Content-Length: 5'' @ CRLF]
              @ CRLF
           = ''POST /x HTTP/1.1'' @ CRLF @ ''Host: example.test'' @ CRLF
                              @ ''Content-Length: 5'' @ CRLF @ CRLF"
    by simp
  have ev: "origin_writes (handleHTTP
             (scenario [] [''ads.test'']
                (Some \<lparr>unread = ''HTTP/1.1 200 OK'' @ CRLF @ CRLF, final_err = EOF\<rparr>))
             \<lparr>unread = ''POST /x HTTP/1.1'' @ CRLF @ ''Host: example.test'' @ CRLF
                              @ ''Content-Length: 5'' @ CRLF @ CRLF @ ''hello'', final_err = EOF\<rparr>)
           = [''POST /x HTTP/1.1'' @ CRLF @ ''Host: example.test'' @ CRLF
                       @ ''Content-Length: 5'' @ CRLF @ CRLF]"
    by code_simp
  from handleHTTP_header_block_only [OF 1 2 3, of "''hello''" EOF]
  obtain req where "parseRequest \<lparr>unread = ''POST /x HTTP/1.1'' @ CRLF @ ''Host: example.test'' @ CRLF
                              @ ''Content-Length: 5'' @ CRLF @ CRLF @ ''hello'', final_err = EOF\<rparr>
           = Inr (req, \<lparr>unread = ''hello'', final_err = EOF\<rparr>)"
    and "Raw req = ''POST /x HTTP/1.1'' @ CRLF @ ''Host: example.test'' @ CRLF
                       @ ''Content-Length: 5'' @ CRLF @ CRLF"
    unfolding u v by blast
  with ev show ?thesis by blast
qed

text \<open>
  The claim as stated fails. In a request whose lines end in a bare line feed, the empty
  line is \<^verbatim>\<open>"\n"\<close> and not \<^verbatim>\<open>"\r\n"\<close>: the header loop does not stop there, reads the body line
  as one more header line, and \<^verbatim>\<open>handleHTTP\<close> forwards it to the origin with the rest.
\<close>

theorem bare_LF_request_body_is_read_and_forwarded:
  "(case parseRequest \<lparr>unread = ''POST /x HTTP/1.1'' @ [LF] @ ''Host: example.test'' @ [LF] @ [LF]
                                  @ ''a=1'' @ [LF], final_err = EOF\<rparr> of
      Inl err \<Rightarrow> False
    | Inr (req, r') \<Rightarrow>
        Host req = ''example.test'' \<and> unread r' = []
        \<and> Raw req = ''POST /x HTTP/1.1'' @ [LF] @ ''Host: example.test'' @ [LF] @ [LF]
                       @ ''a=1'' @ [LF])
   \<and> origin_writes (handleHTTP
        (scenario [] [] (Some \<lparr>unread = ''HTTP/1.1 200 OK'' @ CRLF @ CRLF, final_err = EOF\<rparr>))
        \<lparr>unread = ''POST /x HTTP/1.1'' @ [LF] @ ''Host: example.test'' @ [LF] @ [LF]
                    @ ''a=1'' @ [LF], final_err = EOF\<rparr>)
      = [''POST /x HTTP/1.1'' @ [LF] @ ''Host: example.test'' @ [LF] @ [LF] @ ''a=1'' @ [LF]]"
  by code_simp

text \<open>
  Claim C6. The raw bytes of a parsed message are the bytes consumed, also when the input
  ends in the middle of the headers. The code appends every line it reads to the raw
  buffer, but on \<^verbatim>\<open>io.EOF\<close> it leaves the loop before the append, and \<^verbatim>\<open>ReadString\<close>
  returns the bytes it read together with \<^verbatim>\<open>io.EOF\<close>. On a request that ends inside a header
  line the parse succeeds, the reader is empty, and \<^verbatim>\<open>Raw\<close> lacks the last seven bytes; the
  response parser does the same.
\<close>

theorem parseRequest_drops_partial_line:
  "parseRequest \<lparr>unread = ''GET / HTTP/1.1'' @ CRLF @ ''Host: a'', final_err = EOF\<rparr>
     = Inr (new_request\<lparr>Method := ''GET'', Path := ''/'', Protocol := ''HTTP/1.1'',
                        Raw := ''GET / HTTP/1.1'' @ CRLF\<rparr>,
            \<lparr>unread = [], final_err = EOF\<rparr>)
   \<and> (case parseResponse \<lparr>unread = ''HTTP/1.1 200 OK'' @ CRLF @ ''Server: x'', final_err = EOF\<rparr> of
        Inl err \<Rightarrow> False
      | Inr (resp, r') \<Rightarrow> RawResponse resp = ''HTTP/1.1 200 OK'' @ CRLF \<and> unread r' = [])"
  by code_simp

section \<open>The header map of a response\<close>

lemma response_header_lookup:
  "response_header l m n = (if header_key l = Some n then Some (header_value l) else m n)"
  by (simp add: response_header_def SplitN2_def header_key_def header_value_def Let_def)

lemma fold_response_header:
  "fold response_header hs m n =
     (case header_map hs n of None \<Rightarrow> m n | Some v \<Rightarrow> Some v)"
proof (induction hs arbitrary: m rule: rev_induct)
  case Nil
  then show ?case by (simp add: header_map_def)
next
  case (snoc l hs)
  have "fold response_header (hs @ [l]) m n = response_header l (fold response_header hs m) n"
    by simp
  also have "\<dots> = (if header_key l = Some n then Some (header_value l)
                   else fold response_header hs m n)"
    by (rule response_header_lookup)
  also have "\<dots> = (if header_key l = Some n then Some (header_value l)
                   else (case header_map hs n of None \<Rightarrow> m n | Some v \<Rightarrow> Some v))"
    by (simp only: snoc.IH)
  also have "\<dots> = (case header_map (hs @ [l]) n of None \<Rightarrow> m n | Some v \<Rightarrow> Some v)"
    by (simp add: header_map_def Let_def)
  finally show ?case .
qed

lemma fold_response_header_empty: "fold response_header hs Map.empty = header_map hs"
  by (rule ext) (simp add: fold_response_header split: option.splits)

lemma response_headers_block:
  assumes "\<forall>l \<in> set hs. complete_line l \<and> l \<noteq> CRLF"
  shows "response_headers \<lparr>unread = concat hs @ CRLF @ body, final_err = e\<rparr> m buf =
           Inr (fold response_header hs m, buf @ concat hs @ CRLF,
                \<lparr>unread = body, final_err = e\<rparr>)"
  using assms
proof (induction hs arbitrary: m buf)
  case Nil
  have "ReadString \<lparr>unread = CRLF @ body, final_err = e\<rparr> = (CRLF, None, \<lparr>unread = body, final_err = e\<rparr>)"
    by (rule ReadString_complete_line [OF CRLF_complete])
  then show ?case
    by (simp add: response_headers.simps [of "\<lparr>unread = CRLF @ body, final_err = e\<rparr>"])
next
  case (Cons l hs)
  then have cl: "complete_line l" and ne: "l \<noteq> CRLF"
    and rest: "\<forall>l \<in> set hs. complete_line l \<and> l \<noteq> CRLF"
    by simp_all
  have rs: "ReadString \<lparr>unread = l @ (concat hs @ CRLF @ body), final_err = e\<rparr>
            = (l, None, \<lparr>unread = concat hs @ CRLF @ body, final_err = e\<rparr>)"
    by (rule ReadString_complete_line [OF cl])
  show ?case
    using rs ne Cons.IH [OF rest, of "response_header l m" "buf @ l"]
    by (simp add: response_headers.simps [of "\<lparr>unread = l @ concat hs @ CRLF @ body, final_err = e\<rparr>"])
qed

text \<open>
  Claim C4, as amended. For a response made of a status line of at least two tokens, any
  header lines, the empty line and a body: the header map of every parsed response is
  \<open>header_map\<close> of the header lines, so names are compared byte for byte after trimming
  (no case folding), the last line of a name wins and values are trimmed. The body is read
  only under the exact name \<^verbatim>\<open>Content-Length\<close>: without a line of that spelling the parse
  ends at the empty line and leaves the body unread; with one whose value is a positive
  number that the body covers, exactly that many bytes are read.
\<close>

theorem parseResponse_header_names_exact:
  assumes "complete_line status" and "2 \<le> length (Split (TrimSpace status) (CHR '' ''))"
    and "\<forall>l \<in> set hs. complete_line l \<and> l \<noteq> CRLF"
  shows "(\<forall>resp r'. parseResponse \<lparr>unread = status @ concat hs @ CRLF @ body, final_err = e\<rparr>
                       = Inr (resp, r') \<longrightarrow> Headers resp = header_map hs)
       \<and> (header_map hs ''Content-Length'' = None \<longrightarrow>
            (\<exists>resp. parseResponse \<lparr>unread = status @ concat hs @ CRLF @ body, final_err = e\<rparr>
                       = Inr (resp, \<lparr>unread = body, final_err = e\<rparr>)
                  \<and> Body resp = [] \<and> RawResponse resp = status @ concat hs @ CRLF))
       \<and> (\<forall>cl. header_map hs ''Content-Length'' = Some cl \<and> 0 < Atoi cl
                 \<and> nat (Atoi cl) \<le> length body \<longrightarrow>
            (\<exists>resp. parseResponse \<lparr>unread = status @ concat hs @ CRLF @ body, final_err = e\<rparr>
                       = Inr (resp, \<lparr>unread = drop (nat (Atoi cl)) body, final_err = e\<rparr>)
                  \<and> Body resp = take (nat (Atoi cl)) body
                  \<and> RawResponse resp = status @ concat hs @ CRLF @ take (nat (Atoi cl)) body))"
proof -
  let ?r = "\<lparr>unread = status @ concat hs @ CRLF @ body, final_err = e\<rparr>"
  have rs: "ReadString \<lparr>unread = status @ (concat hs @ CRLF @ body), final_err = e\<rparr>
            = (status, None, \<lparr>unread = concat hs @ CRLF @ body, final_err = e\<rparr>)"
    by (rule ReadString_complete_line [OF assms(1)])
  have hb: "response_headers \<lparr>unread = concat hs @ CRLF @ body, final_err = e\<rparr> Map.empty status =
           Inr (header_map hs, status @ concat hs @ CRLF, \<lparr>unread = body, final_err = e\<rparr>)"
    using response_headers_block [OF assms(3), of body e Map.empty status]
    by (simp add: fold_response_header_empty)
  have not_short: "\<not> length (Split (TrimSpace status) (CHR '' '')) < 2"
    using assms(2) by simp
  have a: "\<forall>resp r'. parseResponse ?r = Inr (resp, r') \<longrightarrow> Headers resp = header_map hs"
    using rs not_short hb
    by (auto simp: parseResponse_def Let_def split: option.splits if_splits sum.splits)
  have b: "header_map hs ''Content-Length'' = None \<longrightarrow>
            (\<exists>resp. parseResponse ?r = Inr (resp, \<lparr>unread = body, final_err = e\<rparr>)
                  \<and> Body resp = [] \<and> RawResponse resp = status @ concat hs @ CRLF)"
    using rs not_short hb
    by (auto simp: parseResponse_def Let_def new_response_def)
  have c: "\<forall>cl. header_map hs ''Content-Length'' = Some cl \<and> 0 < Atoi cl
                 \<and> nat (Atoi cl) \<le> length body \<longrightarrow>
            (\<exists>resp. parseResponse ?r
                       = Inr (resp, \<lparr>unread = drop (nat (Atoi cl)) body, final_err = e\<rparr>)
                  \<and> Body resp = take (nat (Atoi cl)) body
                  \<and> RawResponse resp = status @ concat hs @ CRLF @ take (nat (Atoi cl)) body)"
    using rs not_short hb
    by (auto simp: parseResponse_def Let_def ReadFull_def)
  from a b c show ?thesis by blast
qed

theorem parseResponse_header_names_exact_witness:
  "\<exists>resp. parseResponse \<lparr>unread = ''HTTP/1.1 200 OK'' @ CRLF @ ''content-length: 2'' @ CRLF
                                  @ ''X-A: 1 '' @ CRLF @ ''X-A:  2'' @ CRLF @ CRLF @ ''hi'',
                          final_err = EOF\<rparr>
            = Inr (resp, \<lparr>unread = ''hi'', final_err = EOF\<rparr>)
        \<and> Headers resp ''X-A'' = Some ''2''
        \<and> Headers resp ''x-a'' = None
        \<and> Headers resp ''content-length'' = Some ''2''
        \<and> Headers resp ''Content-Length'' = None
        \<and> Body resp = []"
proof -
  let ?hs = "[''content-length: 2'' @ CRLF, ''X-A: 1 '' @ CRLF, ''X-A:  2'' @ CRLF]"
  have 1: "complete_line (''HTTP/1.1 200 OK'' @ CRLF)" by code_simp
  have 2: "2 \<le> length (Split (TrimSpace (''HTTP/1.1 200 OK'' @ CRLF)) (CHR '' ''))" by code_simp
  have 3: "\<forall>l \<in> set ?hs. complete_line l \<and> l \<noteq> CRLF" by code_simp
  have u: "(''HTTP/1.1 200 OK'' @ CRLF) @ concat ?hs @ CRLF @ ''hi''
           = ''HTTP/1.1 200 OK'' @ CRLF @ ''content-length: 2'' @ CRLF
                                  @ ''X-A: 1 '' @ CRLF @ ''X-A:  2'' @ CRLF @ CRLF @ ''hi''"
    by simp
  have m1: "header_map ?hs ''Content-Length'' = None" by code_simp
  have m2: "header_map ?hs ''content-length'' = Some ''2''" by code_simp
  have m3: "header_map ?hs ''X-A'' = Some ''2''" by code_simp
  have m4: "header_map ?hs ''x-a'' = None" by code_simp
  note t = parseResponse_header_names_exact [OF 1 2 3, of "''hi''" EOF, unfolded u]
  from t m1 obtain resp where
    p: "parseResponse \<lparr>unread = ''HTTP/1.1 200 OK'' @ CRLF @ ''content-length: 2'' @ CRLF
                                  @ ''X-A: 1 '' @ CRLF @ ''X-A:  2'' @ CRLF @ CRLF @ ''hi'',
                          final_err = EOF\<rparr>
            = Inr (resp, \<lparr>unread = ''hi'', final_err = EOF\<rparr>)"
    and b: "Body resp = []"
    by blast
  from t p have "Headers resp = header_map ?hs" by blast
  with m1 m2 m3 m4 p b show ?thesis by auto
qed

text \<open>
  The claim as stated fails: a \<^verbatim>\<open>content-length\<close> header in lower case is stored under its
  own spelling, the lookup of \<^verbatim>\<open>Content-Length\<close> finds nothing, and the body stays unread.
\<close>

theorem content_length_lower_case_not_found:
  "case parseResponse \<lparr>unread = ''HTTP/1.1 200 OK'' @ CRLF @ ''content-length: 2'' @ CRLF @ CRLF @ ''hi'',
                       final_err = EOF\<rparr> of
     Inl err \<Rightarrow> False
   | Inr (resp, r') \<Rightarrow>
       Headers resp ''Content-Length'' = None \<and> Headers resp ''content-length'' = Some ''2''
       \<and> Body resp = [] \<and> unread r' = ''hi''"
  by code_simp


section \<open>The blocklist decision\<close>

lemma scenario_fields:
  "blocked (scenario request blocked_lines org) = File blocked_lines False"
  "origin (scenario request blocked_lines org) = org"
  "origin_write_ok (scenario request blocked_lines org)"
  "client_write_ok (scenario request blocked_lines org)"
  by (simp_all add: scenario_def)

lemma handleHTTP_let_through:
  assumes "parseRequest r = Inr (req, r')" and "checkAndBlockHost w (Host req) = (evs, False)"
    and "origin w = Some server" and "origin_write_ok w"
  shows "handleHTTP w r
           = [SetDeadline Client 30] @ evs
             @ [Dial (JoinHostPort (Host req) (Port req)), Write Origin (Raw req)]
             @ forwardResponse w server @ [Close Origin, Close Client]"
  by (simp add: handleHTTP_def assms)

lemma scan_blocked_False_iff:
  "scan_blocked folds host ls err = Inr False \<longleftrightarrow>
     (\<exists>H \<in> set (filter (\<lambda>b. b \<noteq> [])
                   (map (\<lambda>l. TrimSpace (dropCR l)) (takeWhile (\<lambda>l. \<not> too_long l) ls))).
        EqualFold folds host H)"
  by (induction ls) (auto simp: Let_def)

lemma checkHost_False_iff:
  "checkHost (simple_fold w) d (blocked w) = Inr False \<longleftrightarrow> listed w d"
  by (cases "blocked w")
     (simp_all add: checkHost_def listed_def scanned_hosts_def scan_blocked_False_iff)

lemma checkAndBlockHost_decision:
  "checkAndBlockHost w d
     = (if listed w d then ([CheckBlocklist d, Write Client (forbidden_response d)], True)
        else ([CheckBlocklist d], False))"
proof (cases "checkHost (simple_fold w) d (blocked w)")
  case (Inl e)
  with checkHost_False_iff [of w d] show ?thesis
    by (simp add: checkAndBlockHost_def)
next
  case (Inr ok)
  with checkHost_False_iff [of w d] show ?thesis
    by (simp add: checkAndBlockHost_def)
qed

lemma checkAndBlockHost_cases:
  "checkAndBlockHost w d = ([CheckBlocklist d], False)
   \<or> checkAndBlockHost w d = ([CheckBlocklist d, Write Client (forbidden_response d)], True)"
  by (simp add: checkAndBlockHost_def split: sum.splits)

lemma checked_before_dial_True: "checked_before_dial True evs"
proof (induction evs)
  case Nil
  show ?case by simp
next
  case (Cons ev evs)
  then show ?case by (cases ev) simp_all
qed

lemma handleHTTP_checked: "checked_before_dial False (handleHTTP w r)"
proof (cases "parseRequest r")
  case (Inl e)
  then show ?thesis by (simp add: handleHTTP_def)
next
  case (Inr p)
  obtain req r' where p: "p = (req, r')" by (cases p)
  from checkAndBlockHost_cases [of w "Host req"] Inr p show ?thesis
    by (auto simp: handleHTTP_def checked_before_dial_True)
qed

lemma handleHTTPS_checked: "checked_before_dial False (handleHTTPS w r)"
proof (cases "processConnectRequest r")
  case (Inl e)
  then show ?thesis by (simp add: handleHTTPS_def)
next
  case (Inr p)
  obtain target domain where p: "p = (target, domain)" by (cases p)
  from checkAndBlockHost_cases [of w domain] Inr p show ?thesis
    by (auto simp: handleHTTPS_def checked_before_dial_True)
qed

lemma checked_before_dial_snoc_Close:
  "checked_before_dial seen (evs @ [Close c]) = checked_before_dial seen evs"
  by (induction seen evs rule: checked_before_dial.induct) simp_all

lemma handleConnection_checked: "checked_before_dial False (handleConnection w)"
  by (simp add: handleConnection_def checked_before_dial_snoc_Close handleHTTP_checked
      handleHTTPS_checked split: sum.splits)

lemma forbidden_response_status:
  "\<exists>rest. forbidden_response d = ''HTTP/1.1 403 Forbidden'' @ CRLF @ rest"
  by (simp add: forbidden_response_def)


text \<open>
  Claim C5, as amended. The hosts that the scan of the blocklist reaches are the non-empty
  trimmed lines of a file that can be opened, with no line of 65536 bytes or more before
  them; a host is listed when it equals one of them under \<^verbatim>\<open>strings.EqualFold\<close>. A
  plaintext request whose parsed host (the value of the \<^verbatim>\<open>Host\<close> header before its first
  colon) is listed gets the 403 page and the handler then only closes the client: nothing
  is dialled. The same holds for a CONNECT request whose domain (the target before its
  first colon) is listed. A request whose host is not listed is let through, also when the
  host stands in the file after a line that is too long, or when the file cannot be opened:
  the plaintext handler dials the origin and the CONNECT handler sets up the tunnel. The
  page starts with the status line \<^verbatim>\<open>HTTP/1.1 403 Forbidden\<close>. In every world, every dial
  of a connection comes after the blocklist check.
\<close>

theorem listed_host_gets_403_and_no_dial:
  "(\<forall>req r'. parseRequest r = Inr (req, r') \<and> listed w (Host req) \<longrightarrow>
      handleHTTP w r = [SetDeadline Client 30, CheckBlocklist (Host req),
                        Write Client (forbidden_response (Host req)), Close Client])
   \<and> (\<forall>target domain. processConnectRequest r = Inr (target, domain) \<and> listed w domain \<longrightarrow>
        handleHTTPS w r = [CheckBlocklist domain, Write Client (forbidden_response domain),
                           Close Client])
   \<and> (\<forall>req r'. parseRequest r = Inr (req, r') \<and> \<not> listed w (Host req) \<longrightarrow>
        (\<exists>evs. handleHTTP w r
                 = [SetDeadline Client 30, CheckBlocklist (Host req),
                    Dial (JoinHostPort (Host req) (Port req))] @ evs))
   \<and> (\<forall>target domain. processConnectRequest r = Inr (target, domain) \<and> \<not> listed w domain \<longrightarrow>
        handleHTTPS w r
          = CheckBlocklist domain # fst (establishMITMTunnel w target domain) @ [Close Client])
   \<and> (\<forall>d. \<exists>rest. forbidden_response d = ''HTTP/1.1 403 Forbidden'' @ CRLF @ rest)
   \<and> checked_before_dial False (handleConnection w)"
proof -
  have a: "\<forall>req r'. parseRequest r = Inr (req, r') \<and> listed w (Host req) \<longrightarrow>
      handleHTTP w r = [SetDeadline Client 30, CheckBlocklist (Host req),
                        Write Client (forbidden_response (Host req)), Close Client]"
    by (auto simp: handleHTTP_def checkAndBlockHost_decision)
  have b: "\<forall>target domain. processConnectRequest r = Inr (target, domain) \<and> listed w domain \<longrightarrow>
        handleHTTPS w r = [CheckBlocklist domain, Write Client (forbidden_response domain),
                           Close Client]"
    by (auto simp: handleHTTPS_def checkAndBlockHost_decision)
  have c: "\<forall>req r'. parseRequest r = Inr (req, r') \<and> \<not> listed w (Host req) \<longrightarrow>
        (\<exists>evs. handleHTTP w r
                 = [SetDeadline Client 30, CheckBlocklist (Host req),
                    Dial (JoinHostPort (Host req) (Port req))] @ evs)"
    by (auto simp: handleHTTP_def checkAndBlockHost_decision)
  have d: "\<forall>target domain. processConnectRequest r = Inr (target, domain) \<and> \<not> listed w domain \<longrightarrow>
        handleHTTPS w r
          = CheckBlocklist domain # fst (establishMITMTunnel w target domain) @ [Close Client]"
    by (auto simp: handleHTTPS_def checkAndBlockHost_decision)
  from a b c d forbidden_response_status handleConnection_checked show ?thesis
    by blast
qed

theorem listed_host_gets_403_and_no_dial_witness:
  "handleHTTP (scenario [] [''ads.test'', [CHR 0xC2, CHR 0xA0] @ ''EXAMPLE.test '' @ [CR]] None)
       \<lparr>unread = ''GET / HTTP/1.1'' @ CRLF @ ''Host: example.test'' @ CRLF @ CRLF, final_err = EOF\<rparr>
     = [SetDeadline Client 30, CheckBlocklist ''example.test'',
        Write Client (forbidden_response ''example.test''), Close Client]
   \<and> handleHTTPS (scenario [] [''ads.test'', [CHR 0xC2, CHR 0xA0] @ ''EXAMPLE.test '' @ [CR]] None)
       \<lparr>unread = ''CONNECT ads.test:443 HTTP/1.1'' @ CRLF @ CRLF, final_err = EOF\<rparr>
     = [CheckBlocklist ''ads.test'', Write Client (forbidden_response ''ads.test''), Close Client]
   \<and> (\<exists>evs. handleHTTP
               (scenario [] [''ads.test'', [CHR 0xC2, CHR 0xA0] @ ''EXAMPLE.test '' @ [CR]] None)
               \<lparr>unread = ''GET / HTTP/1.1'' @ CRLF @ ''Host: other.test:8080'' @ CRLF @ CRLF,
                 final_err = EOF\<rparr>
             = [SetDeadline Client 30, CheckBlocklist ''other.test'', Dial ''other.test:8080'']
               @ evs)
   \<and> checked_before_dial False
        (handleConnection
           (scenario [] [''ads.test'', [CHR 0xC2, CHR 0xA0] @ ''EXAMPLE.test '' @ [CR]] None))"
proof -
  let ?w = "scenario [] [''ads.test'', [CHR 0xC2, CHR 0xA0] @ ''EXAMPLE.test '' @ [CR]] None"
  let ?r1 = "\<lparr>unread = ''GET / HTTP/1.1'' @ CRLF @ ''Host: example.test'' @ CRLF @ CRLF,
              final_err = EOF\<rparr>"
  let ?r2 = "\<lparr>unread = ''CONNECT ads.test:443 HTTP/1.1'' @ CRLF @ CRLF, final_err = EOF\<rparr>"
  let ?r3 = "\<lparr>unread = ''GET / HTTP/1.1'' @ CRLF @ ''Host: other.test:8080'' @ CRLF @ CRLF,
              final_err = EOF\<rparr>"
  let ?q1 = "new_request\<lparr>Method := ''GET'', Path := ''/'', Protocol := ''HTTP/1.1'',
               Host := ''example.test'',
               Raw := ''GET / HTTP/1.1'' @ CRLF @ ''Host: example.test'' @ CRLF @ CRLF\<rparr>"
  let ?q3 = "new_request\<lparr>Method := ''GET'', Path := ''/'', Protocol := ''HTTP/1.1'',
               Port := ''8080'', Host := ''other.test'',
               Raw := ''GET / HTTP/1.1'' @ CRLF @ ''Host: other.test:8080'' @ CRLF @ CRLF\<rparr>"
  have l1: "listed ?w ''example.test''" by code_simp
  have l2: "listed ?w ''ads.test''" by code_simp
  have l3: "\<not> listed ?w ''other.test''" by code_simp
  have p1: "parseRequest ?r1 = Inr (?q1, \<lparr>unread = [], final_err = EOF\<rparr>)"
    by code_simp
  have p2: "processConnectRequest ?r2 = Inr (''ads.test:443'', ''ads.test'')" by code_simp
  have p3: "parseRequest ?r3 = Inr (?q3, \<lparr>unread = [], final_err = EOF\<rparr>)"
    by code_simp
  have h: "Host ?q1 = ''example.test''" "Host ?q3 = ''other.test''" "Port ?q3 = ''8080''"
    by (simp_all add: new_request_def)
  have j: "JoinHostPort ''other.test'' ''8080'' = ''other.test:8080''" by code_simp
  have l1': "listed ?w (Host ?q1)" and l3': "\<not> listed ?w (Host ?q3)"
    unfolding h by (rule l1, rule l3)
  from listed_host_gets_403_and_no_dial [of ?r1 ?w] p1 l1'
  have "handleHTTP ?w ?r1 = [SetDeadline Client 30, CheckBlocklist (Host ?q1),
        Write Client (forbidden_response (Host ?q1)), Close Client]"
    by blast
  then have a: "handleHTTP ?w ?r1 = [SetDeadline Client 30, CheckBlocklist ''example.test'',
        Write Client (forbidden_response ''example.test''), Close Client]"
    unfolding h .
  from listed_host_gets_403_and_no_dial [of ?r2 ?w] p2 l2
  have b: "handleHTTPS ?w ?r2
     = [CheckBlocklist ''ads.test'', Write Client (forbidden_response ''ads.test''), Close Client]"
    by blast
  from listed_host_gets_403_and_no_dial [of ?r3 ?w] p3 l3'
  have "\<exists>evs. handleHTTP ?w ?r3
                 = [SetDeadline Client 30, CheckBlocklist (Host ?q3),
                    Dial (JoinHostPort (Host ?q3) (Port ?q3))] @ evs"
    by blast
  then have c: "\<exists>evs. handleHTTP ?w ?r3
             = [SetDeadline Client 30, CheckBlocklist ''other.test'', Dial ''other.test:8080'']
               @ evs"
    unfolding h j .
  from listed_host_gets_403_and_no_dial [of ?r2 ?w]
  have d: "checked_before_dial False (handleConnection ?w)"
    by blast
  from a b c d show ?thesis by blast
qed

text \<open>
  The claim as stated fails. The host \<^verbatim>\<open>ads.test\<close> is on the blocklist, after a line of 65536
  bytes: the scanner stops at that line with \<^verbatim>\<open>ErrTooLong\<close>, \<^verbatim>\<open>checkHost\<close> returns the error,
  \<^verbatim>\<open>checkAndBlockHost\<close> lets the request through, and the origin is dialled.
\<close>

theorem host_after_overlong_line_is_dialled:
  "handleHTTP
     (scenario [] [replicate 65536 (CHR ''x''), ''ads.test'']
        (Some \<lparr>unread = ''HTTP/1.1 200 OK'' @ CRLF @ CRLF, final_err = EOF\<rparr>))
     \<lparr>unread = ''GET / HTTP/1.1'' @ CRLF @ ''Host: ads.test'' @ CRLF @ CRLF, final_err = EOF\<rparr>
   = [SetDeadline Client 30, CheckBlocklist ''ads.test'', Dial ''ads.test:80'',
      Write Origin (''GET / HTTP/1.1'' @ CRLF @ ''Host: ads.test'' @ CRLF @ CRLF),
      Write Client (''HTTP/1.1 200 OK'' @ CRLF @ CRLF), Close Origin, Close Client]"
proof -
  let ?lines = "[replicate 65536 (CHR ''x''), ''ads.test'']"
  let ?server = "\<lparr>unread = ''HTTP/1.1 200 OK'' @ CRLF @ CRLF, final_err = EOF\<rparr>"
  let ?w = "scenario [] ?lines (Some ?server)"
  let ?r = "\<lparr>unread = ''GET / HTTP/1.1'' @ CRLF @ ''Host: ads.test'' @ CRLF @ CRLF,
             final_err = EOF\<rparr>"
  have long: "too_long (replicate 65536 (CHR ''x''))"
    by (simp add: too_long_def)
  have c: "checkAndBlockHost ?w ''ads.test'' = ([CheckBlocklist ''ads.test''], False)"
    by (simp add: checkAndBlockHost_def checkHost_def scenario_fields long)
  let ?req = "new_request\<lparr>Method := ''GET'', Path := ''/'', Protocol := ''HTTP/1.1'',
                Host := ''ads.test'',
                Raw := ''GET / HTTP/1.1'' @ CRLF @ ''Host: ads.test'' @ CRLF @ CRLF\<rparr>"
  have p: "parseRequest ?r = Inr (?req, \<lparr>unread = [], final_err = EOF\<rparr>)"
    by code_simp
  have h: "Host ?req = ''ads.test''" "Port ?req = ''80''"
    "Raw ?req = ''GET / HTTP/1.1'' @ CRLF @ ''Host: ads.test'' @ CRLF @ CRLF"
    by (simp_all add: new_request_def)
  have c': "checkAndBlockHost ?w (Host ?req) = ([CheckBlocklist ''ads.test''], False)"
    unfolding h by (rule c)
  have q: "case parseResponse ?server of
             Inl err \<Rightarrow> False
           | Inr (resp, r') \<Rightarrow> RawResponse resp = ''HTTP/1.1 200 OK'' @ CRLF @ CRLF"
    by code_simp
  then have f: "forwardResponse ?w ?server = [Write Client (''HTTP/1.1 200 OK'' @ CRLF @ CRLF)]"
    by (simp add: forwardResponse_def split: sum.splits prod.splits)
  have j: "JoinHostPort ''ads.test'' ''80'' = ''ads.test:80''"
    by code_simp
  have o: "origin ?w = Some ?server" "origin_write_ok ?w"
    by (simp_all only: scenario_fields)
  show ?thesis
    unfolding handleHTTP_let_through [OF p c' o] h j f by simp
qed

section \<open>Deadlines on the origin connection\<close>

lemma no_deadline_checkAndBlockHost: "SetDeadline c n \<notin> set (fst (checkAndBlockHost w d))"
  using checkAndBlockHost_cases [of w d] by auto

lemma no_deadline_forwardResponse: "SetDeadline c n \<notin> set (forwardResponse w server)"
  by (simp add: forwardResponse_def split: sum.splits prod.splits)

text \<open>
  Claim C8. The plaintext forwarder arms a 30-second deadline on the origin connection
  after the dial and before the first write. \<^verbatim>\<open>handleHTTP\<close> of package \<^verbatim>\<open>proxy\<close> never
  calls \<^verbatim>\<open>SetDeadline\<close> on the origin connection, in any world and on any input; the
  plaintext GET of the first scenario dials, writes the request and the response and
  closes, with deadlines on the client only. (The earlier \<^verbatim>\<open>handleHTTP\<close> of \<^verbatim>\<open>main.go\<close> has
  the call \<^verbatim>\<open>server.SetDeadline\<close> right after the dial.)
\<close>

theorem handleHTTP_never_arms_origin_deadline:
  "SetDeadline Origin n \<notin> set (handleHTTP w r)
   \<and> handleHTTP
        (scenario [] [] (Some \<lparr>unread = ''HTTP/1.1 200 OK'' @ CRLF @ ''Content-Length: 2'' @ CRLF
                                          @ CRLF @ ''hi'', final_err = EOF\<rparr>))
        \<lparr>unread = ''GET http://example.test/x HTTP/1.1'' @ CRLF @ ''Host: example.test'' @ CRLF
                    @ CRLF, final_err = EOF\<rparr>
      = [SetDeadline Client 30, CheckBlocklist ''example.test'', Dial ''example.test:80'',
         Write Origin (''GET http://example.test/x HTTP/1.1'' @ CRLF @ ''Host: example.test'' @ CRLF
                       @ CRLF),
         Write Client (''HTTP/1.1 200 OK'' @ CRLF @ ''Content-Length: 2'' @ CRLF @ CRLF @ ''hi''),
         Close Origin, Close Client]"
proof -
  have g: "SetDeadline Origin n \<notin> set (handleHTTP w r)"
  proof (cases "parseRequest r")
    case (Inl e)
    then show ?thesis by (simp add: handleHTTP_def)
  next
    case (Inr p)
    obtain req r' where p: "p = (req, r')" by (cases p)
    from checkAndBlockHost_cases [of w "Host req"] Inr p
      no_deadline_forwardResponse [of Origin n w]
    show ?thesis
      by (auto simp: handleHTTP_def split: option.splits)
  qed
  have c: "handleHTTP
        (scenario [] [] (Some \<lparr>unread = ''HTTP/1.1 200 OK'' @ CRLF @ ''Content-Length: 2'' @ CRLF
                                          @ CRLF @ ''hi'', final_err = EOF\<rparr>))
        \<lparr>unread = ''GET http://example.test/x HTTP/1.1'' @ CRLF @ ''Host: example.test'' @ CRLF
                    @ CRLF, final_err = EOF\<rparr>
      = [SetDeadline Client 30, CheckBlocklist ''example.test'', Dial ''example.test:80'',
         Write Origin (''GET http://example.test/x HTTP/1.1'' @ CRLF @ ''Host: example.test'' @ CRLF
                       @ CRLF),
         Write Client (''HTTP/1.1 200 OK'' @ CRLF @ ''Content-Length: 2'' @ CRLF @ CRLF @ ''hi''),
         Close Origin, Close Client]"
    by code_simp
  from g c show ?thesis by (rule conjI)
qed

section \<open>The tunnel: termination and the close calls\<close>

lemma s2c_step_frame:
  "c_in (s2c_step k st) = c_in st" "to_server (s2c_step k st) = to_server st"
  "c2s (s2c_step k st) = c2s st" "s_dead (s2c_step k st) = s_dead st"
  by (simp_all add: s2c_step_def s2c_finish_def Let_def split: s2c_pc.splits)

lemma inv_closes_c2s_step: "inv_closes st \<Longrightarrow> inv_closes (c2s_step k st)"
  by (auto simp: inv_closes_def c2s_step_def c2s_finish_def Let_def split: c2s_pc.splits)

lemma inv_closes_s2c_step: "inv_closes st \<Longrightarrow> inv_closes (s2c_step k st)"
  by (auto simp: inv_closes_def s2c_step_def s2c_finish_def Let_def split: s2c_pc.splits)

lemma inv_closes_init: "inv_closes (pump_init cin sin)"
  by (simp add: inv_closes_def pump_init_def)

lemma inv_closes_reset:
  "inv_closes st \<Longrightarrow> inv_closes (st\<lparr>c_dead := True\<rparr>)"
  "inv_closes st \<Longrightarrow> inv_closes (st\<lparr>s_dead := True\<rparr>)"
  by (simp_all add: inv_closes_def)

lemma inv_closes_act: "inv_closes st \<Longrightarrow> inv_closes (act a st)"
  by (cases a) (simp_all add: act_def inv_closes_c2s_step inv_closes_s2c_step inv_closes_reset)

lemma inv_closes_run: "inv_closes st \<Longrightarrow> inv_closes (run sched st)"
  by (induction sched arbitrary: st) (simp_all add: inv_closes_act)

lemma inv_closes_c2s_run: "inv_closes st \<Longrightarrow> inv_closes (c2s_run st)"
proof (induction st rule: c2s_run.induct)
  case (1 st)
  show ?case
  proof (cases "c2s st = C2S_Done")
    case True
    with "1.prems" show ?thesis by (subst c2s_run.simps) simp
  next
    case False
    from "1.IH" [OF False inv_closes_c2s_step [OF "1.prems"]] False show ?thesis
      by (subst c2s_run.simps) simp
  qed
qed

lemma inv_closes_s2c_run: "inv_closes st \<Longrightarrow> inv_closes (s2c_run st)"
proof (induction st rule: s2c_run.induct)
  case (1 st)
  show ?case
  proof (cases "s2c st = S2C_Done")
    case True
    with "1.prems" show ?thesis by (subst s2c_run.simps) simp
  next
    case False
    from "1.IH" [OF False inv_closes_s2c_step [OF "1.prems"]] False show ?thesis
      by (subst s2c_run.simps) simp
  qed
qed

lemma inv_closes_tunnel: "inv_closes (tunnelConnections sched cin sin)"
  by (simp add: tunnelConnections_def drain_def inv_closes_s2c_run inv_closes_c2s_run
      inv_closes_run inv_closes_init)

lemma c2s_run_done: "c2s (c2s_run st) = C2S_Done"
proof (induction st rule: c2s_run.induct)
  case (1 st)
  then show ?case by (subst c2s_run.simps) simp
qed

lemma s2c_run_done: "s2c (s2c_run st) = S2C_Done"
proof (induction st rule: s2c_run.induct)
  case (1 st)
  then show ?case by (subst s2c_run.simps) simp
qed

lemma s2c_run_keeps_c2s: "c2s (s2c_run st) = c2s st"
proof (induction st rule: s2c_run.induct)
  case (1 st)
  then show ?case by (subst s2c_run.simps) (simp add: s2c_step_frame)
qed

lemma drain_done: "c2s (drain st) = C2S_Done \<and> s2c (drain st) = S2C_Done"
  by (simp add: drain_def s2c_run_done s2c_run_keeps_c2s c2s_run_done)

lemma tunnel_done:
  "c2s (tunnelConnections sched cin sin) = C2S_Done"
  "s2c (tunnelConnections sched cin sin) = S2C_Done"
  by (simp_all add: tunnelConnections_def drain_done)

lemma tunnel_closes:
  "closes (tunnelConnections sched cin sin) = [Close Origin, Close ClientTLS]
   \<or> closes (tunnelConnections sched cin sin) = [Close ClientTLS, Close Origin]"
  using inv_closes_tunnel [of sched cin sin] tunnel_done [of sched cin sin]
  by (simp add: inv_closes_def)

text \<open>
  Claim C2. When one direction of the pump ends, only the write half of its destination is
  closed, and the other direction still delivers the bytes that are under way. For every
  order of the two goroutines, every reset by a peer and all bytes sent by the client and
  the origin, the calls that \<^verbatim>\<open>tunnelConnections\<close> makes when a direction ends are the two
  full \<^verbatim>\<open>Close\<close> calls, one on each connection, and never \<^verbatim>\<open>CloseWrite\<close>. The client ends
  its stream while a response of the origin is under way: the client-to-origin copy ends
  and closes the origin connection, the first read of the other direction fails, and the
  client gets none of the response. It gets the response in full when the direction from
  the origin has run first, and also when only its first read has: the bytes that the
  \<^verbatim>\<open>bufio.Reader\<close> has taken from the connection before the close are still delivered. The
  directions are not symmetric either: two bytes without a line end reach the origin
  from the client, but not the client from the origin, which must first send a header
  block that ends in an empty line. (The earlier \<^verbatim>\<open>handleHTTPS\<close> of \<^verbatim>\<open>main.go\<close> copies with
  \<^verbatim>\<open>io.Copy\<close> in both directions and ends each with \<^verbatim>\<open>CloseWrite\<close>.)
\<close>

theorem tunnel_full_close_cuts_other_direction:
  "(closes (tunnelConnections sched cin sin) = [Close Origin, Close ClientTLS]
    \<or> closes (tunnelConnections sched cin sin) = [Close ClientTLS, Close Origin])
   \<and> to_client (tunnelConnections [StepC2S 0] [] (''HTTP/1.1 200 OK'' @ CRLF @ CRLF @ ''hi'')) = []
   \<and> closes (tunnelConnections [StepC2S 0] [] (''HTTP/1.1 200 OK'' @ CRLF @ CRLF @ ''hi''))
       = [Close Origin, Close ClientTLS]
   \<and> to_client (tunnelConnections [StepS2C 4095, StepS2C 0, StepS2C 0, StepS2C 0] []
                  (''HTTP/1.1 200 OK'' @ CRLF @ CRLF @ ''hi''))
       = ''HTTP/1.1 200 OK'' @ CRLF @ CRLF @ ''hi''
   \<and> to_client (tunnelConnections [StepS2C 4095, StepC2S 0] []
                  (''HTTP/1.1 200 OK'' @ CRLF @ CRLF @ ''hi''))
       = ''HTTP/1.1 200 OK'' @ CRLF @ CRLF @ ''hi''
   \<and> to_server (tunnelConnections [StepC2S 1] ''hi'' []) = ''hi''
   \<and> to_client (tunnelConnections [StepS2C 1] [] ''hi'') = []"
proof -
  have e: "to_client (tunnelConnections [StepC2S 0] [] (''HTTP/1.1 200 OK'' @ CRLF @ CRLF @ ''hi'')) = []
   \<and> closes (tunnelConnections [StepC2S 0] [] (''HTTP/1.1 200 OK'' @ CRLF @ CRLF @ ''hi''))
       = [Close Origin, Close ClientTLS]
   \<and> to_client (tunnelConnections [StepS2C 4095, StepS2C 0, StepS2C 0, StepS2C 0] []
                  (''HTTP/1.1 200 OK'' @ CRLF @ CRLF @ ''hi''))
       = ''HTTP/1.1 200 OK'' @ CRLF @ CRLF @ ''hi''
   \<and> to_client (tunnelConnections [StepS2C 4095, StepC2S 0] []
                  (''HTTP/1.1 200 OK'' @ CRLF @ CRLF @ ''hi''))
       = ''HTTP/1.1 200 OK'' @ CRLF @ CRLF @ ''hi''
   \<and> to_server (tunnelConnections [StepC2S 1] ''hi'' []) = ''hi''
   \<and> to_client (tunnelConnections [StepS2C 1] [] ''hi'') = []"
    by code_simp
  from tunnel_closes [of sched cin sin] e show ?thesis by (rule conjI)
qed

section \<open>A failed dial in the CONNECT path\<close>

lemma no_502_checkAndBlockHost:
  "Write Client (''HTTP/1.1 502 Bad Gateway'' @ CRLF @ CRLF) \<notin> set (fst (checkAndBlockHost w d))"
  using checkAndBlockHost_cases [of w d] by (auto simp: forbidden_response_def)

lemma tunnel_closes_only:
  assumes "ev \<in> set (closes (tunnelConnections sched cin sin))"
  shows "ev = Close Origin \<or> ev = Close ClientTLS"
  using tunnel_closes [of sched cin sin] assms by auto

lemma no_502_establishMITMTunnel:
  "Write Client (''HTTP/1.1 502 Bad Gateway'' @ CRLF @ CRLF)
     \<notin> set (fst (establishMITMTunnel w target domain))"
  by (auto simp: establishMITMTunnel_def connection_established_def
      split: option.splits sum.splits dest: tunnel_closes_only)

text \<open>
  Claim C1. For every CONNECT flow whose dial to the origin fails, the proxy writes
  \<^verbatim>\<open>HTTP/1.1 502 Bad Gateway\<close> to the client, in place of the 200 line, before it closes the
  connection. \<^verbatim>\<open>handleHTTPS\<close> of package \<^verbatim>\<open>proxy\<close> never writes that line, in any world and
  on any input; for a CONNECT to an origin that refuses the connection, the client gets
  the 200 line, which \<^verbatim>\<open>establishMITMTunnel\<close> writes first, then the handshake, and after
  the failed dial only the close. (The earlier \<^verbatim>\<open>handleHTTPS\<close> of \<^verbatim>\<open>main.go\<close> dials first,
  writes the 502 line when the dial fails and the 200 line only after it has succeeded.)
\<close>

theorem handleHTTPS_never_writes_502:
  "Write Client (''HTTP/1.1 502 Bad Gateway'' @ CRLF @ CRLF) \<notin> set (handleHTTPS w r)
   \<and> handleConnection (scenario (''CONNECT unreachable.test:443 HTTP/1.1'' @ CRLF @ CRLF) [] None)
     = [SetDeadline Client 30, CheckBlocklist ''unreachable.test'',
        Write Client (''HTTP/1.1 200 Connection Established'' @ CRLF @ CRLF), LoadRootCA,
        GenerateCertificate ''unreachable.test'', Handshake, DialTLS ''unreachable.test:443'',
        Close Client, Close Client]"
proof -
  have g: "Write Client (''HTTP/1.1 502 Bad Gateway'' @ CRLF @ CRLF) \<notin> set (handleHTTPS w r)"
  proof (cases "processConnectRequest r")
    case (Inl e)
    then show ?thesis by (simp add: handleHTTPS_def)
  next
    case (Inr p)
    obtain target domain where p: "p = (target, domain)" by (cases p)
    obtain evs b where c: "checkAndBlockHost w domain = (evs, b)"
      by (cases "checkAndBlockHost w domain")
    from no_502_checkAndBlockHost [of w domain] c
    have "Write Client (''HTTP/1.1 502 Bad Gateway'' @ CRLF @ CRLF) \<notin> set evs"
      by simp
    with Inr p c no_502_establishMITMTunnel [of w target domain] show ?thesis
      by (cases b) (simp_all add: handleHTTPS_def)
  qed
  have c: "handleConnection (scenario (''CONNECT unreachable.test:443 HTTP/1.1'' @ CRLF @ CRLF) [] None)
     = [SetDeadline Client 30, CheckBlocklist ''unreachable.test'',
        Write Client (''HTTP/1.1 200 Connection Established'' @ CRLF @ CRLF), LoadRootCA,
        GenerateCertificate ''unreachable.test'', Handshake, DialTLS ''unreachable.test:443'',
        Close Client, Close Client]"
    by code_simp
  from g c show ?thesis by (rule conjI)
qed

section \<open>How often the connections are closed\<close>

lemma plain_dials_append [simp]: "plain_dials (xs @ ys) = plain_dials xs + plain_dials ys"
  by (induction xs rule: plain_dials.induct) simp_all

lemma tls_dials_append [simp]: "tls_dials (xs @ ys) = tls_dials xs + tls_dials ys"
  by (induction xs rule: tls_dials.induct) simp_all

lemma client_closes_append [simp]:
  "client_closes (xs @ ys) = client_closes xs + client_closes ys"
  by (simp add: client_closes_def)

lemma origin_closes_append [simp]:
  "origin_closes (xs @ ys) = origin_closes xs + origin_closes ys"
  by (simp add: origin_closes_def)

lemma counts_Cons [simp]:
  "client_closes (ev # evs) = (if ev = Close Client \<or> ev = Close ClientTLS then 1 else 0) + client_closes evs"
  "origin_closes (ev # evs) = (if ev = Close Origin then 1 else 0) + origin_closes evs"
  by (auto simp: client_closes_def origin_closes_def)

lemma counts_Nil [simp]: "client_closes [] = 0" "origin_closes [] = 0"
  by (simp_all add: client_closes_def origin_closes_def)

lemma counts_tunnel:
  "client_closes (closes (tunnelConnections sched cin sin)) = 1"
  "origin_closes (closes (tunnelConnections sched cin sin)) = 1"
  "plain_dials (closes (tunnelConnections sched cin sin)) = 0"
  "tls_dials (closes (tunnelConnections sched cin sin)) = 0"
  using tunnel_closes [of sched cin sin] by auto

lemma counts_forwardResponse:
  "client_closes (forwardResponse w server) = 0" "origin_closes (forwardResponse w server) = 0"
  "plain_dials (forwardResponse w server) = 0" "tls_dials (forwardResponse w server) = 0"
  by (simp_all add: forwardResponse_def split: sum.splits prod.splits)

lemma counts_handleHTTP:
  "client_closes (handleHTTP w r) = 1"
  "origin_closes (handleHTTP w r) = (if origin w = None then 0 else plain_dials (handleHTTP w r))"
  "tls_dials (handleHTTP w r) = 0"
  "last (handleHTTP w r) = Close Client"
proof -
  show "last (handleHTTP w r) = Close Client" by (simp add: handleHTTP_def)
  show "client_closes (handleHTTP w r) = 1"
    "origin_closes (handleHTTP w r) = (if origin w = None then 0 else plain_dials (handleHTTP w r))"
    "tls_dials (handleHTTP w r) = 0"
  proof (atomize (full), cases "parseRequest r")
    case (Inl e)
    then show "client_closes (handleHTTP w r) = 1
      \<and> origin_closes (handleHTTP w r) = (if origin w = None then 0 else plain_dials (handleHTTP w r))
      \<and> tls_dials (handleHTTP w r) = 0"
      by (simp add: handleHTTP_def)
  next
    case (Inr p)
    obtain req r' where p: "p = (req, r')" by (cases p)
    from checkAndBlockHost_cases [of w "Host req"] Inr p
    show "client_closes (handleHTTP w r) = 1
      \<and> origin_closes (handleHTTP w r) = (if origin w = None then 0 else plain_dials (handleHTTP w r))
      \<and> tls_dials (handleHTTP w r) = 0"
      by (auto simp: handleHTTP_def counts_forwardResponse split: option.splits)
  qed
qed

lemma counts_establishMITMTunnel:
  "client_closes (fst (establishMITMTunnel w t d))
     = (if origin w \<noteq> None \<and> 0 < tls_dials (fst (establishMITMTunnel w t d)) then 1 else 0)"
  "origin_closes (fst (establishMITMTunnel w t d))
     = (if origin w = None then 0 else 2 * tls_dials (fst (establishMITMTunnel w t d)))"
  "plain_dials (fst (establishMITMTunnel w t d)) = 0"
  by (auto simp: establishMITMTunnel_def counts_tunnel split: option.splits sum.splits)

lemma counts_handleHTTPS:
  "client_closes (handleHTTPS w r)
     = (if origin w \<noteq> None \<and> 0 < tls_dials (handleHTTPS w r) then 2 else 1)"
  "origin_closes (handleHTTPS w r)
     = (if origin w = None then 0 else 2 * tls_dials (handleHTTPS w r))"
  "plain_dials (handleHTTPS w r) = 0"
  "last (handleHTTPS w r) = Close Client"
proof -
  show "last (handleHTTPS w r) = Close Client" by (simp add: handleHTTPS_def)
  show "client_closes (handleHTTPS w r)
     = (if origin w \<noteq> None \<and> 0 < tls_dials (handleHTTPS w r) then 2 else 1)"
    "origin_closes (handleHTTPS w r)
     = (if origin w = None then 0 else 2 * tls_dials (handleHTTPS w r))"
    "plain_dials (handleHTTPS w r) = 0"
  proof (atomize (full), cases "processConnectRequest r")
    case (Inl e)
    then show "client_closes (handleHTTPS w r)
         = (if origin w \<noteq> None \<and> 0 < tls_dials (handleHTTPS w r) then 2 else 1)
      \<and> origin_closes (handleHTTPS w r)
         = (if origin w = None then 0 else 2 * tls_dials (handleHTTPS w r))
      \<and> plain_dials (handleHTTPS w r) = 0"
      by (simp add: handleHTTPS_def)
  next
    case (Inr p)
    obtain target domain where p: "p = (target, domain)" by (cases p)
    from checkAndBlockHost_cases [of w domain] Inr p
      counts_establishMITMTunnel [of w target domain]
    show "client_closes (handleHTTPS w r)
         = (if origin w \<noteq> None \<and> 0 < tls_dials (handleHTTPS w r) then 2 else 1)
      \<and> origin_closes (handleHTTPS w r)
         = (if origin w = None then 0 else 2 * tls_dials (handleHTTPS w r))
      \<and> plain_dials (handleHTTPS w r) = 0"
      by (auto simp: handleHTTPS_def)
  qed
qed

text \<open>
  Claim C3. On every exit path the client socket is closed exactly once, and so is each
  origin connection that the flow owns. In every world, \<^verbatim>\<open>Close\<close> is called on the client
  socket once when the peek fails, three times when the tunnel ran (by the tunnel on the
  TLS wrapper, by \<^verbatim>\<open>handleHTTPS\<close> and by \<^verbatim>\<open>handleConnection\<close>) and twice on every other path
  (by the handler and by \<^verbatim>\<open>handleConnection\<close>); an origin connection is closed once for each
  successful \<^verbatim>\<open>net.Dial\<close> of the plaintext path and twice for each successful \<^verbatim>\<open>tls.Dial\<close>
  of the CONNECT path (by the tunnel and by the deferred close). A request line of two
  tokens ends with two calls of \<^verbatim>\<open>Close\<close> on the client socket; a CONNECT whose tunnel ran
  ends with three on the client socket and two on the origin connection. The socket is
  released by the first of the calls; the later ones return an error, which the code drops.
  (In \<^verbatim>\<open>main.go\<close> only \<^verbatim>\<open>handleConnection\<close> defers the close of the client, and the tunnel ends
  its directions with \<^verbatim>\<open>CloseWrite\<close>: one call of \<^verbatim>\<open>Close\<close> for each socket.)
\<close>

theorem client_closed_more_than_once:
  "client_closes (handleConnection w)
     = (case Peek (client_in w) 7 of
          Inl e \<Rightarrow> 1
        | Inr p \<Rightarrow> (if origin w \<noteq> None \<and> 0 < tls_dials (handleConnection w) then 3 else 2))
   \<and> origin_closes (handleConnection w)
     = (if origin w = None then 0
        else plain_dials (handleConnection w) + 2 * tls_dials (handleConnection w))
   \<and> handleConnection (scenario (''GET /'' @ CRLF) [] None)
       = [SetDeadline Client 30, SetDeadline Client 30, Close Client, Close Client]
   \<and> handleConnection
        (scenario (''CONNECT api.test:443 HTTP/1.1'' @ CRLF @ CRLF) []
           (Some \<lparr>unread = [], final_err = EOF\<rparr>))
       = [SetDeadline Client 30, CheckBlocklist ''api.test'',
          Write Client connection_established, LoadRootCA, GenerateCertificate ''api.test'',
          Handshake, DialTLS ''api.test:443'', Close Origin, Close ClientTLS, Close Origin,
          Close Client, Close Client]"
proof -
  have g: "client_closes (handleConnection w)
     = (case Peek (client_in w) 7 of
          Inl e \<Rightarrow> 1
        | Inr p \<Rightarrow> (if origin w \<noteq> None \<and> 0 < tls_dials (handleConnection w) then 3 else 2))
   \<and> origin_closes (handleConnection w)
     = (if origin w = None then 0
        else plain_dials (handleConnection w) + 2 * tls_dials (handleConnection w))"
  proof (cases "Peek (client_in w) 7")
    case (Inl e)
    then show ?thesis by (simp add: handleConnection_def)
  next
    case (Inr p)
    show ?thesis
    proof (cases "p = ''CONNECT''")
      case True
      with Inr counts_handleHTTPS [of w "client_in w"] show ?thesis
        by (simp add: handleConnection_def)
    next
      case False
      with Inr counts_handleHTTP [of w "client_in w"] show ?thesis
        by (simp add: handleConnection_def)
    qed
  qed
  have c: "handleConnection (scenario (''GET /'' @ CRLF) [] None)
       = [SetDeadline Client 30, SetDeadline Client 30, Close Client, Close Client]
   \<and> handleConnection
        (scenario (''CONNECT api.test:443 HTTP/1.1'' @ CRLF @ CRLF) []
           (Some \<lparr>unread = [], final_err = EOF\<rparr>))
       = [SetDeadline Client 30, CheckBlocklist ''api.test'',
          Write Client connection_established, LoadRootCA, GenerateCertificate ''api.test'',
          Handshake, DialTLS ''api.test:443'', Close Origin, Close ClientTLS, Close Origin,
          Close Client, Close Client]"
    by code_simp
  from g c show ?thesis by simp
qed

section \<open>The leaf certificate\<close>






end
